theory Spec2Isabelle
  imports Complex_Main "HOL-Library.Product_Lexorder" "HOL-Library.AList" "HOL-Library.Multiset"
begin

section \<open>Density classifier (web_processor.py)\<close>

text \<open>
  Density levels are Python strings in the source, vehicle counts are Python integers.
  \<open>classify_density\<close> is the if/elif chain of \<open>WebTrafficProcessor._classify_density\<close>;
  it has no raising branch. Here and below the names are those of the source without
  the leading underscore of private methods.
\<close>

definition DensityLevels :: "string set" where
  "DensityLevels = {''LOW'', ''MEDIUM'', ''HIGH'', ''CRITICAL''}"

definition classify_density :: "int \<Rightarrow> string" where
  "classify_density vehicle_count =
     (if vehicle_count \<le> 5 then ''LOW''
      else if vehicle_count \<le> 15 then ''MEDIUM''
      else if vehicle_count \<le> 25 then ''HIGH''
      else ''CRITICAL'')"

section \<open>Sequence planner (web_processor.py)\<close>

text \<open>
  An entry of \<open>traffic_analysis\<close> is the dictionary built in \<open>aggregate_results\<close>:
  keys \<open>count\<close>, \<open>density\<close> and \<open>vehicles\<close> (always the empty list there).
  The dictionary \<open>traffic_analysis\<close> itself is an association list in insertion order
  with distinct keys, since \<open>sorted\<close> walks \<open>items()\<close> in that order.
\<close>

record analysis =
  count :: int
  density :: string

type_synonym traffic_analysis = "(string \<times> analysis) list"

text \<open>The local dictionary \<open>density_priority\<close> and its \<open>.get(_, 0)\<close>.\<close>

definition density_priority :: "string \<rightharpoonup> int" where
  "density_priority =
     [''CRITICAL'' \<mapsto> 4, ''HIGH'' \<mapsto> 3, ''MEDIUM'' \<mapsto> 2, ''LOW'' \<mapsto> 1]"

definition dict_get :: "('k \<rightharpoonup> 'v) \<Rightarrow> 'k \<Rightarrow> 'v \<Rightarrow> 'v" where
  "dict_get m k dflt = (case m k of None \<Rightarrow> dflt | Some v \<Rightarrow> v)"

text \<open>The sort key \<open>lambda x: (density_priority.get(x[1]['density'], 0), x[1]['count'])\<close>;
  Python compares the tuples lexicographically.\<close>

definition sort_key_of :: "string \<times> analysis \<Rightarrow> int \<times> int" where
  "sort_key_of x = (dict_get density_priority (density (snd x)) 0, count (snd x))"

text \<open>
  \<open>sorted(xs, key=f, reverse=True)\<close>: CPython reverses the list, runs its stable
  ascending sort and reverses the result, so that equal keys keep their input order.
\<close>

definition sorted_reverse :: "('a \<Rightarrow> 'k::linorder) \<Rightarrow> 'a list \<Rightarrow> 'a list" where
  "sorted_reverse f xs = rev (sort_key f (rev xs))"

definition calculate_optimal_sequence :: "traffic_analysis \<Rightarrow> string list" where
  "calculate_optimal_sequence ta = map fst (sorted_reverse sort_key_of ta)"


section \<open>Signal recommendations (web_processor.py, config.py)\<close>

text \<open>
  A subscript \<open>d[k]\<close> on a dictionary raises \<open>KeyError\<close> when the key is absent,
  \<open>d.get(k, default)\<close> (above, \<open>dict_get\<close>) does not.
\<close>

datatype py_error = KeyError string

definition subscript :: "(string \<rightharpoonup> 'v) \<Rightarrow> string \<Rightarrow> py_error + 'v" where
  "subscript m k = (case m k of None \<Rightarrow> Inl (KeyError k) | Some v \<Rightarrow> Inr v)"

text \<open>An entry of \<open>config.SIGNAL_TIMINGS\<close>; every entry has the same three keys.\<close>

record timing =
  green :: int
  yellow :: int
  min_green :: int

definition SIGNAL_TIMINGS :: "string \<rightharpoonup> timing" where
  "SIGNAL_TIMINGS =
     [''LOW'' \<mapsto> \<lparr>green = 15, yellow = 3, min_green = 10\<rparr>,
      ''MEDIUM'' \<mapsto> \<lparr>green = 30, yellow = 3, min_green = 20\<rparr>,
      ''HIGH'' \<mapsto> \<lparr>green = 45, yellow = 3, min_green = 30\<rparr>,
      ''CRITICAL'' \<mapsto> \<lparr>green = 60, yellow = 3, min_green = 40\<rparr>]"

record recommendation =
  density_level :: string
  vehicle_count :: int
  green_duration :: int
  yellow_duration :: int
  total_duration :: int

text \<open>
  The dictionary \<open>recommendations\<close> holds one recommendation per direction and, under
  the key \<open>optimal_sequence\<close>, the list of directions.
\<close>

datatype rec_value = Entry recommendation | Sequence "string list"

text \<open>The body of the \<open>for direction, data in traffic_analysis.items()\<close> loop.\<close>

fun recommend_each ::
  "traffic_analysis \<Rightarrow> (string \<rightharpoonup> rec_value) \<Rightarrow> py_error + (string \<rightharpoonup> rec_value)" where
  "recommend_each [] recommendations = Inr recommendations"
| "recommend_each ((direction, data) # rest) recommendations =
     (case subscript SIGNAL_TIMINGS ''LOW'' of
        Inl e \<Rightarrow> Inl e
      | Inr low \<Rightarrow>
          (let timing = dict_get SIGNAL_TIMINGS (density data) low
           in recommend_each rest
                (recommendations(direction \<mapsto> Entry
                   \<lparr>density_level = density data,
                    vehicle_count = count data,
                    green_duration = green timing,
                    yellow_duration = yellow timing,
                    total_duration = green timing + yellow timing\<rparr>))))"

definition generate_signal_recommendations ::
  "traffic_analysis \<Rightarrow> py_error + (string \<rightharpoonup> rec_value)" where
  "generate_signal_recommendations ta =
     (case recommend_each ta Map.empty of
        Inl e \<Rightarrow> Inl e
      | Inr recommendations \<Rightarrow>
          Inr (recommendations(''optimal_sequence'' \<mapsto> Sequence (calculate_optimal_sequence ta))))"

section \<open>Vehicle tracker (vehicle_detector.py, config.py)\<close>

text \<open>
  A detection is the dictionary built in \<open>detect_vehicles\<close>; a track is the dictionary
  stored in \<open>tracked_vehicles\<close> (its keys \<open>center\<close> and \<open>bbox\<close> are the fields
  \<open>track_center\<close> and \<open>track_bbox\<close> here). Coordinates are Python integers. The clock
  \<open>time.time()\<close> is read once per assignment and once per cleanup; its value is an
  argument of the model, a real number of seconds.
\<close>

type_synonym point = "int \<times> int"

record detection =
  bbox :: "int list"
  class_name :: string
  confidence :: real
  class_id :: int
  center :: point

record track =
  track_center :: point
  track_bbox :: "int list"
  frames_missing :: int
  last_seen :: real

text \<open>
  The state of a \<open>VehicleDetector\<close> that tracking reads and writes. The dictionary
  \<open>tracked_vehicles\<close> is an association list in insertion order: the matching loop
  walks it in that order.
\<close>

record detector =
  tracked_vehicles :: "(int \<times> track) list"
  next_vehicle_id :: int
  total_detections :: int

definition init_detector :: detector where
  "init_detector = \<lparr>tracked_vehicles = [], next_vehicle_id = 0, total_detections = 0\<rparr>"

definition TRACKING_ENABLED :: bool where
  "TRACKING_ENABLED = True"

definition TRACKING_MAX_DISTANCE :: real where
  "TRACKING_MAX_DISTANCE = 50"

definition TRACKING_MAX_FRAMES_MISSING :: real where
  "TRACKING_MAX_FRAMES_MISSING = 10"

text \<open>\<open>np.sqrt((center[0] - track_center[0])**2 + (center[1] - track_center[1])**2)\<close>\<close>

definition distance :: "point \<Rightarrow> point \<Rightarrow> real" where
  "distance c tc = sqrt (real_of_int ((fst c - fst tc)\<^sup>2 + (snd c - snd tc)\<^sup>2))"

text \<open>\<open>min_distance\<close> starts as \<open>float('inf')\<close>, which is \<open>None\<close> here.\<close>

definition below :: "real \<Rightarrow> real option \<Rightarrow> bool" where
  "below d min_distance = (case min_distance of None \<Rightarrow> True | Some m \<Rightarrow> d < m)"

text \<open>One round of the loop over \<open>list(self.tracked_vehicles.items())\<close>, on the pair
  \<open>(min_distance, matched_id)\<close>.\<close>

fun match_step :: "point \<Rightarrow> real option \<times> int option \<Rightarrow> int \<times> track \<Rightarrow> real option \<times> int option"
  where
  "match_step c (min_distance, matched_id) (vehicle_id, tr) =
     (let d = distance c (track_center tr)
      in if d < TRACKING_MAX_DISTANCE \<and> below d min_distance
         then (Some d, Some vehicle_id)
         else (min_distance, matched_id))"

definition find_closest :: "point \<Rightarrow> (int \<times> track) list \<Rightarrow> real option \<times> int option" where
  "find_closest c tracks = foldl (match_step c) (None, None) tracks"

definition track_of :: "detection \<Rightarrow> real \<Rightarrow> track" where
  "track_of det now =
     \<lparr>track_center = center det, track_bbox = bbox det, frames_missing = 0, last_seen = now\<rparr>"

text \<open>\<open>_assign_tracking_id\<close>: the identity returned and the detector afterwards.\<close>

definition assign_tracking_id :: "detection \<Rightarrow> real \<Rightarrow> detector \<Rightarrow> int \<times> detector" where
  "assign_tracking_id det now s =
     (case snd (find_closest (center det) (tracked_vehicles s)) of
        Some matched_id \<Rightarrow>
          (matched_id,
           s\<lparr>tracked_vehicles := AList.update matched_id (track_of det now) (tracked_vehicles s)\<rparr>)
      | None \<Rightarrow>
          (let new_id = next_vehicle_id s
           in (new_id,
               s\<lparr>next_vehicle_id := new_id + 1,
                 tracked_vehicles := AList.update new_id (track_of det now) (tracked_vehicles s)\<rparr>)))"

text \<open>
  \<open>cleanup_tracks\<close>: the identities to remove are collected first, then deleted one by
  one. Each of them is a key of the dictionary, so no \<open>del\<close> can raise.
\<close>

definition stale :: "real \<Rightarrow> int \<times> track \<Rightarrow> bool" where
  "stale current_time x =
     (current_time - last_seen (snd x) > TRACKING_MAX_FRAMES_MISSING / 30)"

definition cleanup_tracks :: "real \<Rightarrow> detector \<Rightarrow> detector" where
  "cleanup_tracks current_time s =
     (let ids_to_remove = map fst (filter (stale current_time) (tracked_vehicles s))
      in s\<lparr>tracked_vehicles :=
             foldl (\<lambda>d vehicle_id. AList.delete vehicle_id d) (tracked_vehicles s) ids_to_remove\<rparr>)"

text \<open>
  The part of \<open>detect_vehicles\<close> after inference: the loop over the boxes of a vehicle
  class, given as the detections built from them, each with the clock value read when it
  is assigned. The result pairs each detection with its \<open>id\<close> entry.
\<close>

fun detect_vehicles ::
  "(detection \<times> real) list \<Rightarrow> detector \<Rightarrow> (detection \<times> int option) list \<times> detector" where
  "detect_vehicles [] s = ([], s)"
| "detect_vehicles ((det, now) # rest) s =
     (let (tracking_id, s1) =
            (if TRACKING_ENABLED
             then (case assign_tracking_id det now s of (i, s') \<Rightarrow> (Some i, s'))
             else (None, s));
          s2 = s1\<lparr>total_detections := total_detections s1 + 1\<rparr>;
          (detections, s3) = detect_vehicles rest s2
      in ((det, tracking_id) # detections, s3))"

text \<open>The two operations a caller has on a detector, and a run of them.\<close>

datatype tracker_op = Detect "(detection \<times> real) list" | Cleanup real

fun step :: "detector \<Rightarrow> tracker_op \<Rightarrow> detector" where
  "step s (Detect dets) = snd (detect_vehicles dets s)"
| "step s (Cleanup current_time) = cleanup_tracks current_time s"

definition run :: "tracker_op list \<Rightarrow> detector \<Rightarrow> detector" where
  "run ops s = foldl step s ops"

text \<open>The identities handed out by a frame, and by all the frames of a run, in order.\<close>

definition returned_ids :: "(detection \<times> int option) list \<Rightarrow> int list" where
  "returned_ids detections = List.map_filter snd detections"

fun issued :: "tracker_op list \<Rightarrow> detector \<Rightarrow> int list" where
  "issued [] s = []"
| "issued (Detect dets # ops) s =
     returned_ids (fst (detect_vehicles dets s)) @ issued ops (step s (Detect dets))"
| "issued (Cleanup current_time # ops) s = issued ops (step s (Cleanup current_time))"

text \<open>The identities of the live tracks, and the invariant of the detector: the keys are
  distinct and every live identity is below the counter.\<close>

definition live_ids :: "detector \<Rightarrow> int set" where
  "live_ids s = fst ` set (tracked_vehicles s)"

definition tracker_inv :: "detector \<Rightarrow> bool" where
  "tracker_inv s \<longleftrightarrow>
     distinct (map fst (tracked_vehicles s)) \<and> (\<forall>i \<in> live_ids s. i < next_vehicle_id s)"

section \<open>Properties of the classifier\<close>

text \<open>
  Claim C1. For every non-negative count the classifier returns LOW up to 5, MEDIUM from
  6 to 15, HIGH from 16 to 25 and CRITICAL from 26 on; the boundary values 0, 5, 6, 15,
  16, 25 and 26 are classified as LOW, LOW, MEDIUM, MEDIUM, HIGH, HIGH and CRITICAL.
\<close>

theorem classify_density_boundaries:
  assumes "0 \<le> c"
  shows "(c \<le> 5 \<longrightarrow> classify_density c = ''LOW'')
   \<and> (6 \<le> c \<and> c \<le> 15 \<longrightarrow> classify_density c = ''MEDIUM'')
   \<and> (16 \<le> c \<and> c \<le> 25 \<longrightarrow> classify_density c = ''HIGH'')
   \<and> (26 \<le> c \<longrightarrow> classify_density c = ''CRITICAL'')
   \<and> classify_density 0 = ''LOW'' \<and> classify_density 5 = ''LOW''
   \<and> classify_density 6 = ''MEDIUM'' \<and> classify_density 15 = ''MEDIUM''
   \<and> classify_density 16 = ''HIGH'' \<and> classify_density 25 = ''HIGH''
   \<and> classify_density 26 = ''CRITICAL''"
  using assms by (simp add: classify_density_def)

theorem classify_density_boundaries_witness:
  "(0::int) \<le> 7 \<and> 6 \<le> (7::int) \<and> (7::int) \<le> 15 \<and> classify_density 7 = ''MEDIUM''"
  using classify_density_boundaries [of 7] by simp

text \<open>
  Claim C9, as stated: a negative count makes classification fail. The source has no
  check on the sign: the first comparison \<open>vehicle_count <= 5\<close> accepts every negative
  count, so \<open>-1\<close> is classified as LOW.
\<close>

theorem classify_density_negative_accepted:
  "classify_density (- 1) = ''LOW'' \<and> classify_density (- 1) \<in> DensityLevels"
  by (simp add: classify_density_def DensityLevels_def)

text \<open>
  Claim C9, amended: every negative count is classified, without any error, as LOW.
\<close>

theorem classify_density_negative_low:
  assumes "c < 0"
  shows "classify_density c = ''LOW''"
  using assms by (simp add: classify_density_def)

theorem classify_density_negative_low_witness:
  "(- 3 :: int) < 0 \<and> classify_density (- 3) = ''LOW''"
  using classify_density_negative_low [of "- 3"] by simp

section \<open>Properties of the sequence planner\<close>

lemma mset_sorted_reverse: "mset (sorted_reverse f xs) = mset xs"
  by (simp add: sorted_reverse_def)

lemma set_sorted_reverse: "set (sorted_reverse f xs) = set xs"
  by (simp add: sorted_reverse_def)

lemma sorted_reverse_desc: "sorted_wrt (\<lambda>x y. f y \<le> f x) (sorted_reverse f xs)"
proof -
  have "sorted (map f (sort_key f (rev xs)))" by (rule sorted_sort_key)
  then have "sorted_wrt (\<lambda>x y. f x \<le> f y) (sort_key f (rev xs))"
    by (simp add: sorted_map)
  then show ?thesis
    by (simp add: sorted_reverse_def sorted_wrt_rev)
qed

lemma sorted_reverse_stable:
  "filter (\<lambda>x. f x = k) (sorted_reverse f xs) = filter (\<lambda>x. f x = k) xs"
  by (simp add: sorted_reverse_def rev_filter [symmetric] sort_key_stable)

lemma mset_sequence: "mset (calculate_optimal_sequence ta) = mset (map fst ta)"
proof -
  have "mset (map fst (sorted_reverse sort_key_of ta))
      = image_mset fst (mset (sorted_reverse sort_key_of ta))"
    by simp
  then show ?thesis
    by (simp add: calculate_optimal_sequence_def mset_sorted_reverse)
qed

lemma sequence_descending:
  assumes d: "distinct (map fst ta)"
    and ij: "i < j" "j < length ta"
    and a: "map_of ta (calculate_optimal_sequence ta ! i) = Some a"
    and b: "map_of ta (calculate_optimal_sequence ta ! j) = Some b"
  shows "sort_key_of (calculate_optimal_sequence ta ! j, b)
       \<le> sort_key_of (calculate_optimal_sequence ta ! i, a)"
proof -
  let ?ys = "sorted_reverse sort_key_of ta"
  have len: "length ?ys = length ta"
    by (simp add: sorted_reverse_def)
  have mem: "\<And>n. n < length ta \<Longrightarrow> ?ys ! n \<in> set ta"
    using len set_sorted_reverse [of sort_key_of ta] nth_mem by metis
  have look: "\<And>n. n < length ta \<Longrightarrow> map_of ta (fst (?ys ! n)) = Some (snd (?ys ! n))"
    using mem d by simp
  have si: "calculate_optimal_sequence ta ! i = fst (?ys ! i)"
    and sj: "calculate_optimal_sequence ta ! j = fst (?ys ! j)"
    using ij len by (simp_all add: calculate_optimal_sequence_def)
  have ea: "a = snd (?ys ! i)" using a look [of i] ij si by simp
  have eb: "b = snd (?ys ! j)" using b look [of j] ij sj by simp
  have "sort_key_of (?ys ! j) \<le> sort_key_of (?ys ! i)"
    using sorted_reverse_desc [of sort_key_of ta] ij len
    by (simp add: sorted_wrt_iff_nth_less)
  then show ?thesis by (simp add: si sj ea eb)
qed

lemma sort_key_of_le:
  "sort_key_of (d, b) \<le> sort_key_of (e, a) \<longleftrightarrow>
     dict_get density_priority (density b) 0 < dict_get density_priority (density a) 0
   \<or> dict_get density_priority (density b) 0 = dict_get density_priority (density a) 0
       \<and> count b \<le> count a"
  by (auto simp: sort_key_of_def)

lemma rank_levels:
  "dict_get density_priority ''CRITICAL'' 0 = 4"
  "dict_get density_priority ''HIGH'' 0 = 3"
  "dict_get density_priority ''MEDIUM'' 0 = 2"
  "dict_get density_priority ''LOW'' 0 = 1"
  by (simp_all add: dict_get_def density_priority_def)

lemma sequence_stable:
  assumes d: "distinct (map fst ta)"
  shows "filter (\<lambda>d. \<exists>a. map_of ta d = Some a \<and> sort_key_of (d, a) = k)
           (calculate_optimal_sequence ta)
       = map fst (filter (\<lambda>x. sort_key_of x = k) ta)"
proof -
  let ?ys = "sorted_reverse sort_key_of ta"
  let ?P = "\<lambda>x. \<exists>a. map_of ta (fst x) = Some a \<and> sort_key_of (fst x, a) = k"
  have eq: "?P x = (sort_key_of x = k)" if "x \<in> set ?ys" for x
  proof -
    from that have "x \<in> set ta" by (simp add: set_sorted_reverse)
    then have "map_of ta (fst x) = Some (snd x)" using d by simp
    then show ?thesis by simp
  qed
  have "filter (\<lambda>d. \<exists>a. map_of ta d = Some a \<and> sort_key_of (d, a) = k) (map fst ?ys)
      = map fst (filter ?P ?ys)"
    by (simp add: filter_map comp_def)
  also have "filter ?P ?ys = filter (\<lambda>x. sort_key_of x = k) ?ys"
    by (rule filter_cong [OF refl]) (rule eq)
  also have "\<dots> = filter (\<lambda>x. sort_key_of x = k) ta"
    by (simp add: sorted_reverse_stable)
  finally show ?thesis by (simp add: calculate_optimal_sequence_def)
qed

text \<open>
  Claim C2. For a traffic summary (a dictionary, so its keys are distinct) the planner
  returns a permutation of exactly the directions present, in which an earlier direction
  never has a smaller severity rank than a later one and, at equal rank, never a smaller
  count; the ranks are CRITICAL 4 > HIGH 3 > MEDIUM 2 > LOW 1. For the summary
  NORTH (CRITICAL, 30), SOUTH (LOW, 2), EAST (HIGH, 10), WEST (MEDIUM, 8) the order is
  NORTH, EAST, WEST, SOUTH.
\<close>

theorem optimal_sequence_sorted_permutation:
  assumes "distinct (map fst ta)"
  shows "mset (calculate_optimal_sequence ta) = mset (map fst ta)
   \<and> length (calculate_optimal_sequence ta) = length ta
   \<and> (\<forall>i j a b. i < j \<and> j < length ta
          \<and> map_of ta (calculate_optimal_sequence ta ! i) = Some a
          \<and> map_of ta (calculate_optimal_sequence ta ! j) = Some b
        \<longrightarrow> dict_get density_priority (density b) 0 < dict_get density_priority (density a) 0
          \<or> dict_get density_priority (density b) 0 = dict_get density_priority (density a) 0
              \<and> count b \<le> count a)
   \<and> dict_get density_priority ''CRITICAL'' 0 > dict_get density_priority ''HIGH'' 0
   \<and> dict_get density_priority ''HIGH'' 0 > dict_get density_priority ''MEDIUM'' 0
   \<and> dict_get density_priority ''MEDIUM'' 0 > dict_get density_priority ''LOW'' 0
   \<and> calculate_optimal_sequence
        [(''NORTH'', \<lparr>count = 30, density = ''CRITICAL''\<rparr>),
         (''SOUTH'', \<lparr>count = 2, density = ''LOW''\<rparr>),
         (''EAST'', \<lparr>count = 10, density = ''HIGH''\<rparr>),
         (''WEST'', \<lparr>count = 8, density = ''MEDIUM''\<rparr>)]
      = [''NORTH'', ''EAST'', ''WEST'', ''SOUTH'']"
proof (intro conjI)
  show "mset (calculate_optimal_sequence ta) = mset (map fst ta)"
    by (rule mset_sequence)
  show "length (calculate_optimal_sequence ta) = length ta"
    by (simp add: calculate_optimal_sequence_def sorted_reverse_def)
  show "\<forall>i j a b. i < j \<and> j < length ta
          \<and> map_of ta (calculate_optimal_sequence ta ! i) = Some a
          \<and> map_of ta (calculate_optimal_sequence ta ! j) = Some b
        \<longrightarrow> dict_get density_priority (density b) 0 < dict_get density_priority (density a) 0
          \<or> dict_get density_priority (density b) 0 = dict_get density_priority (density a) 0
              \<and> count b \<le> count a"
  proof (intro allI impI, elim conjE)
    fix i j a b
    assume "i < j" "j < length ta"
      "map_of ta (calculate_optimal_sequence ta ! i) = Some a"
      "map_of ta (calculate_optimal_sequence ta ! j) = Some b"
    from sequence_descending [OF assms this]
    show "dict_get density_priority (density b) 0 < dict_get density_priority (density a) 0
          \<or> dict_get density_priority (density b) 0 = dict_get density_priority (density a) 0
              \<and> count b \<le> count a"
      by (simp add: sort_key_of_le)
  qed
  show "calculate_optimal_sequence
        [(''NORTH'', \<lparr>count = 30, density = ''CRITICAL''\<rparr>),
         (''SOUTH'', \<lparr>count = 2, density = ''LOW''\<rparr>),
         (''EAST'', \<lparr>count = 10, density = ''HIGH''\<rparr>),
         (''WEST'', \<lparr>count = 8, density = ''MEDIUM''\<rparr>)]
      = [''NORTH'', ''EAST'', ''WEST'', ''SOUTH'']"
    by (simp add: calculate_optimal_sequence_def sorted_reverse_def sort_key_of_def
        dict_get_def density_priority_def)
qed (simp_all add: rank_levels)

theorem optimal_sequence_sorted_permutation_witness:
  "distinct (map fst [(''EAST'', \<lparr>count = 4, density = ''LOW''\<rparr>),
                      (''WEST'', \<lparr>count = 20, density = ''HIGH''\<rparr>)])
   \<and> calculate_optimal_sequence [(''EAST'', \<lparr>count = 4, density = ''LOW''\<rparr>),
                                 (''WEST'', \<lparr>count = 20, density = ''HIGH''\<rparr>)]
     = [''WEST'', ''EAST'']
   \<and> mset (calculate_optimal_sequence [(''EAST'', \<lparr>count = 4, density = ''LOW''\<rparr>),
                                 (''WEST'', \<lparr>count = 20, density = ''HIGH''\<rparr>)])
     = mset (map fst [(''EAST'', \<lparr>count = 4, density = ''LOW''\<rparr>),
                      (''WEST'', \<lparr>count = 20, density = ''HIGH''\<rparr>)])"
  using optimal_sequence_sorted_permutation
    [of "[(''EAST'', \<lparr>count = 4, density = ''LOW''\<rparr>),
          (''WEST'', \<lparr>count = 20, density = ''HIGH''\<rparr>)]"]
  by (simp add: calculate_optimal_sequence_def sorted_reverse_def sort_key_of_def
        dict_get_def density_priority_def)

text \<open>
  Claim C3, as stated: the planner depends only on the summary as a mapping, and ties on
  level and count are broken by a fixed order of the directions. The two summaries below
  are the same mapping, NORTH and SOUTH tie on level and count, and the planner returns
  them in the order in which the entries were inserted: once NORTH first, once SOUTH
  first.
\<close>

theorem optimal_sequence_depends_on_insertion_order:
  "map_of [(''NORTH'', \<lparr>count = 2, density = ''LOW''\<rparr>),
           (''SOUTH'', \<lparr>count = 2, density = ''LOW''\<rparr>)]
   = map_of [(''SOUTH'', \<lparr>count = 2, density = ''LOW''\<rparr>),
             (''NORTH'', \<lparr>count = 2, density = ''LOW''\<rparr>)]
   \<and> calculate_optimal_sequence [(''NORTH'', \<lparr>count = 2, density = ''LOW''\<rparr>),
                                 (''SOUTH'', \<lparr>count = 2, density = ''LOW''\<rparr>)]
     = [''NORTH'', ''SOUTH'']
   \<and> calculate_optimal_sequence [(''SOUTH'', \<lparr>count = 2, density = ''LOW''\<rparr>),
                                 (''NORTH'', \<lparr>count = 2, density = ''LOW''\<rparr>)]
     = [''SOUTH'', ''NORTH'']"
  by (auto simp: calculate_optimal_sequence_def sorted_reverse_def sort_key_of_def
        dict_get_def density_priority_def fun_eq_iff)

text \<open>
  Claim C3, amended: the planner is a function of the summary as the sequence of its
  entries in insertion order, and directions that tie on both severity rank and count
  keep, in the output, the order in which their entries were inserted (the sort is
  stable): the directions of the output whose key is \<open>k\<close> are the directions of the
  input whose key is \<open>k\<close>, in input order.
\<close>

theorem optimal_sequence_ties_keep_insertion_order:
  assumes "distinct (map fst ta)"
  shows "filter (\<lambda>d. \<exists>a. map_of ta d = Some a \<and> sort_key_of (d, a) = k)
           (calculate_optimal_sequence ta)
       = map fst (filter (\<lambda>x. sort_key_of x = k) ta)"
  using assms by (rule sequence_stable)

theorem optimal_sequence_ties_keep_insertion_order_witness:
  "distinct (map fst [(''SOUTH'', \<lparr>count = 2, density = ''LOW''\<rparr>),
                      (''EAST'', \<lparr>count = 9, density = ''MEDIUM''\<rparr>),
                      (''NORTH'', \<lparr>count = 2, density = ''LOW''\<rparr>)])
   \<and> filter (\<lambda>d. \<exists>a. map_of [(''SOUTH'', \<lparr>count = 2, density = ''LOW''\<rparr>),
                      (''EAST'', \<lparr>count = 9, density = ''MEDIUM''\<rparr>),
                      (''NORTH'', \<lparr>count = 2, density = ''LOW''\<rparr>)] d = Some a
                 \<and> sort_key_of (d, a) = (1, 2))
       (calculate_optimal_sequence [(''SOUTH'', \<lparr>count = 2, density = ''LOW''\<rparr>),
                      (''EAST'', \<lparr>count = 9, density = ''MEDIUM''\<rparr>),
                      (''NORTH'', \<lparr>count = 2, density = ''LOW''\<rparr>)])
     = [''SOUTH'', ''NORTH'']"
  using optimal_sequence_ties_keep_insertion_order
    [of "[(''SOUTH'', \<lparr>count = 2, density = ''LOW''\<rparr>),
          (''EAST'', \<lparr>count = 9, density = ''MEDIUM''\<rparr>),
          (''NORTH'', \<lparr>count = 2, density = ''LOW''\<rparr>)]" "(1, 2)"]
  by (simp add: sort_key_of_def dict_get_def density_priority_def)

section \<open>Properties of the tracker\<close>


lemma find_closest_snoc:
  "find_closest c (ts @ [x]) = match_step c (find_closest c ts) x"
  by (simp add: find_closest_def)


lemma find_closest_cases:
  "(find_closest c ts = (None, None)
      \<and> (\<forall>x \<in> set ts. \<not> distance c (track_center (snd x)) < TRACKING_MAX_DISTANCE))
   \<or> (\<exists>i tr. find_closest c ts = (Some (distance c (track_center tr)), Some i)
        \<and> (i, tr) \<in> set ts
        \<and> distance c (track_center tr) < TRACKING_MAX_DISTANCE
        \<and> (\<forall>x \<in> set ts. distance c (track_center tr) \<le> distance c (track_center (snd x))))"
proof (induction ts rule: rev_induct)
  case Nil
  show ?case by (simp add: find_closest_def)
next
  case (snoc x ts)
  obtain j t where x: "x = (j, t)" by (cases x)
  from snoc show ?case
  proof
    assume h: "find_closest c ts = (None, None)
      \<and> (\<forall>x \<in> set ts. \<not> distance c (track_center (snd x)) < TRACKING_MAX_DISTANCE)"
    show ?thesis
    proof (cases "distance c (track_center t) < TRACKING_MAX_DISTANCE")
      case True
      with h have "find_closest c (ts @ [x]) = (Some (distance c (track_center t)), Some j)"
        by (simp add: find_closest_snoc x below_def)
      moreover have "\<forall>y \<in> set (ts @ [x]). distance c (track_center t) \<le> distance c (track_center (snd y))"
        using h True by (auto simp: x)
      ultimately show ?thesis using True by (auto simp: x)
    next
      case False
      with h show ?thesis by (simp add: find_closest_snoc x)
    qed
  next
    assume "\<exists>i tr. find_closest c ts = (Some (distance c (track_center tr)), Some i)
        \<and> (i, tr) \<in> set ts
        \<and> distance c (track_center tr) < TRACKING_MAX_DISTANCE
        \<and> (\<forall>x \<in> set ts. distance c (track_center tr) \<le> distance c (track_center (snd x)))"
    then obtain i tr where fc: "find_closest c ts = (Some (distance c (track_center tr)), Some i)"
      and mem: "(i, tr) \<in> set ts"
      and near: "distance c (track_center tr) < TRACKING_MAX_DISTANCE"
      and least: "\<forall>x \<in> set ts. distance c (track_center tr) \<le> distance c (track_center (snd x))"
      by blast
    show ?thesis
    proof (cases "distance c (track_center t) < distance c (track_center tr)")
      case True
      then have "find_closest c (ts @ [x]) = (Some (distance c (track_center t)), Some j)"
        using near by (simp add: find_closest_snoc x fc below_def)
      moreover have "\<forall>y \<in> set (ts @ [x]). distance c (track_center t) \<le> distance c (track_center (snd y))"
        using least True by (auto simp: x)
      moreover have "distance c (track_center t) < TRACKING_MAX_DISTANCE"
        using True near by simp
      ultimately show ?thesis by (auto simp: x)
    next
      case False
      then have "find_closest c (ts @ [x]) = (Some (distance c (track_center tr)), Some i)"
        by (simp add: find_closest_snoc x fc below_def)
      moreover have "\<forall>y \<in> set (ts @ [x]). distance c (track_center tr) \<le> distance c (track_center (snd y))"
        using least False by (auto simp: x)
      ultimately show ?thesis using mem near by auto
    qed
  qed
qed

lemma foldl_delete:
  "foldl (\<lambda>d k. AList.delete k d) al ks = filter (\<lambda>x. fst x \<notin> set ks) al"
proof (induction ks arbitrary: al)
  case Nil
  show ?case by simp
next
  case (Cons k ks)
  have "AList.delete k al = filter (\<lambda>x. fst x \<noteq> k) al"
    by (auto simp: AList.delete_eq split_def intro: filter_cong)
  then have "filter (\<lambda>x. fst x \<notin> set ks) (AList.delete k al)
      = filter (\<lambda>x. fst x \<notin> set (k # ks)) al"
    by (auto intro: filter_cong)
  then show ?case by (simp add: Cons.IH)
qed

lemma cleanup_tracks_filter:
  assumes "distinct (map fst (tracked_vehicles s))"
  shows "tracked_vehicles (cleanup_tracks now s)
       = filter (\<lambda>x. \<not> stale now x) (tracked_vehicles s)"
proof -
  let ?al = "tracked_vehicles s"
  have "(fst x \<notin> set (map fst (filter (stale now) ?al))) = (\<not> stale now x)"
    if "x \<in> set ?al" for x
  proof
    assume "fst x \<notin> set (map fst (filter (stale now) ?al))"
    with that show "\<not> stale now x" by force
  next
    assume n: "\<not> stale now x"
    show "fst x \<notin> set (map fst (filter (stale now) ?al))"
    proof
      assume "fst x \<in> set (map fst (filter (stale now) ?al))"
      then obtain y where y: "y \<in> set ?al" "stale now y" "fst y = fst x" by auto
      have "(fst x, snd x) \<in> set ?al" using that by simp
      moreover have "(fst y, snd y) \<in> set ?al" using y(1) by simp
      then have "(fst x, snd y) \<in> set ?al" by (simp only: y(3))
      ultimately have "(fst x, snd x) \<in> set ?al" "(fst x, snd y) \<in> set ?al" .
      with assms have "snd x = snd y" by (rule eq_key_imp_eq_value)
      with y have "x = y" by (simp add: prod_eq_iff)
      with n y show False by simp
    qed
  qed
  then have "filter (\<lambda>x. fst x \<notin> set (map fst (filter (stale now) ?al))) ?al
           = filter (\<lambda>x. \<not> stale now x) ?al"
    by (rule filter_cong [OF refl])
  then show ?thesis by (simp add: cleanup_tracks_def foldl_delete)
qed

lemma cleanup_tracks_fields:
  "next_vehicle_id (cleanup_tracks now s) = next_vehicle_id s"
  "total_detections (cleanup_tracks now s) = total_detections s"
  by (simp_all add: cleanup_tracks_def)

lemma cleanup_tracks_live_subset:
  "live_ids (cleanup_tracks now s) \<subseteq> live_ids s"
  by (auto simp: live_ids_def cleanup_tracks_def foldl_delete)

lemma cleanup_tracks_distinct:
  "distinct (map fst (tracked_vehicles s)) \<Longrightarrow>
   distinct (map fst (tracked_vehicles (cleanup_tracks now s)))"
  by (simp add: cleanup_tracks_def foldl_delete distinct_map_filter)

lemma cleanup_tracks_inv: "tracker_inv s \<Longrightarrow> tracker_inv (cleanup_tracks now s)"
  using cleanup_tracks_live_subset [of now s]
  by (auto simp: tracker_inv_def cleanup_tracks_distinct cleanup_tracks_fields)

lemma assign_matched:
  assumes "snd (find_closest (center det) (tracked_vehicles s)) = Some i"
  shows "assign_tracking_id det now s
       = (i, s\<lparr>tracked_vehicles := AList.update i (track_of det now) (tracked_vehicles s)\<rparr>)"
  using assms by (simp add: assign_tracking_id_def)

lemma assign_new:
  assumes "snd (find_closest (center det) (tracked_vehicles s)) = None"
  shows "assign_tracking_id det now s
       = (next_vehicle_id s,
          s\<lparr>next_vehicle_id := next_vehicle_id s + 1,
            tracked_vehicles :=
              AList.update (next_vehicle_id s) (track_of det now) (tracked_vehicles s)\<rparr>)"
  using assms by (simp add: assign_tracking_id_def Let_def)

lemma matched_is_live:
  assumes "snd (find_closest c ts) = Some i"
  shows "i \<in> fst ` set ts"
  using find_closest_cases [of c ts] assms by force

lemma assign_live_ids:
  "live_ids (snd (assign_tracking_id det now s))
   = insert (fst (assign_tracking_id det now s)) (live_ids s)"
  by (cases "snd (find_closest (center det) (tracked_vehicles s))")
     (simp_all add: assign_new assign_matched live_ids_def dom_update)

lemma assign_id_cases:
  "fst (assign_tracking_id det now s) \<in> live_ids s
     \<and> next_vehicle_id (snd (assign_tracking_id det now s)) = next_vehicle_id s
   \<or> fst (assign_tracking_id det now s) = next_vehicle_id s
     \<and> next_vehicle_id (snd (assign_tracking_id det now s)) = next_vehicle_id s + 1"
proof (cases "snd (find_closest (center det) (tracked_vehicles s))")
  case None
  then show ?thesis by (simp add: assign_new)
next
  case (Some i)
  then show ?thesis using matched_is_live [OF Some]
    by (simp add: assign_matched live_ids_def)
qed

lemma assign_total:
  "total_detections (snd (assign_tracking_id det now s)) = total_detections s"
  by (cases "snd (find_closest (center det) (tracked_vehicles s))")
     (simp_all add: assign_new assign_matched)

lemma assign_distinct:
  "distinct (map fst (tracked_vehicles s)) \<Longrightarrow>
   distinct (map fst (tracked_vehicles (snd (assign_tracking_id det now s))))"
  by (cases "snd (find_closest (center det) (tracked_vehicles s))")
     (simp_all add: assign_new assign_matched distinct_update)

lemma assign_inv:
  assumes "tracker_inv s"
  shows "tracker_inv (snd (assign_tracking_id det now s))"
  using assms assign_id_cases [of det now s]
  by (auto simp: tracker_inv_def assign_distinct assign_live_ids)

lemma assign_dead:
  assumes "tracker_inv s" "i < next_vehicle_id s" "i \<notin> live_ids s"
  shows "i \<notin> live_ids (snd (assign_tracking_id det now s))
       \<and> i < next_vehicle_id (snd (assign_tracking_id det now s))
       \<and> fst (assign_tracking_id det now s) \<noteq> i"
  using assms assign_id_cases [of det now s]
  by (auto simp: assign_live_ids)


lemma update_absent: "k \<notin> fst ` set al \<Longrightarrow> AList.update k v al = al @ [(k, v)]"
  by (induction al) auto

lemma sqrt_2500: "sqrt 2500 = 50"
  by (rule real_sqrt_unique) simp_all

lemma distance_less_threshold:
  "distance c tc < TRACKING_MAX_DISTANCE \<longleftrightarrow> (fst c - fst tc)\<^sup>2 + (snd c - snd tc)\<^sup>2 < 2500"
proof -
  let ?a = "(fst c - fst tc)\<^sup>2 + (snd c - snd tc)\<^sup>2"
  have "distance c tc < TRACKING_MAX_DISTANCE \<longleftrightarrow> sqrt (real_of_int ?a) < sqrt 2500"
    by (simp only: distance_def TRACKING_MAX_DISTANCE_def sqrt_2500)
  also have "\<dots> \<longleftrightarrow> real_of_int ?a < 2500"
    by (rule real_sqrt_less_iff)
  also have "\<dots> \<longleftrightarrow> ?a < 2500" by linarith
  finally show ?thesis .
qed

lemma distance_less_distance:
  "distance c a < distance c b \<longleftrightarrow>
   (fst c - fst a)\<^sup>2 + (snd c - snd a)\<^sup>2 < (fst c - fst b)\<^sup>2 + (snd c - snd b)\<^sup>2"
  unfolding distance_def real_sqrt_less_iff by linarith

lemma inv_total [simp]: "tracker_inv (s\<lparr>total_detections := n\<rparr>) = tracker_inv s"
  by (simp add: tracker_inv_def live_ids_def)

lemma live_total [simp]: "live_ids (s\<lparr>total_detections := n\<rparr>) = live_ids s"
  by (simp add: live_ids_def)

lemma detect_cons:
  "detect_vehicles ((det, now) # rest) s =
     ((det, Some (fst (assign_tracking_id det now s)))
        # fst (detect_vehicles rest
                 ((snd (assign_tracking_id det now s))
                    \<lparr>total_detections := total_detections (snd (assign_tracking_id det now s)) + 1\<rparr>)),
      snd (detect_vehicles rest
                 ((snd (assign_tracking_id det now s))
                    \<lparr>total_detections := total_detections (snd (assign_tracking_id det now s)) + 1\<rparr>)))"
  by (simp add: TRACKING_ENABLED_def split_def Let_def)

lemma assign_next_mono:
  "next_vehicle_id s \<le> next_vehicle_id (snd (assign_tracking_id det now s))"
  using assign_id_cases [of det now s] by auto

lemma detect_inv:
  "tracker_inv s \<Longrightarrow> tracker_inv (snd (detect_vehicles dets s))"
proof (induction dets arbitrary: s)
  case Nil
  then show ?case by simp
next
  case (Cons x dets)
  obtain det now where x: "x = (det, now)" by (cases x)
  show ?case
    unfolding x detect_cons snd_conv
    by (rule Cons.IH) (simp add: assign_inv Cons.prems)
qed

lemma detect_next_mono:
  "next_vehicle_id s \<le> next_vehicle_id (snd (detect_vehicles dets s))"
proof (induction dets arbitrary: s)
  case Nil
  show ?case by simp
next
  case (Cons x dets)
  obtain det now where x: "x = (det, now)" by (cases x)
  let ?s2 = "(snd (assign_tracking_id det now s))
       \<lparr>total_detections := total_detections (snd (assign_tracking_id det now s)) + 1\<rparr>"
  have "next_vehicle_id s \<le> next_vehicle_id ?s2"
    using assign_next_mono [of s det now] by simp
  also have "\<dots> \<le> next_vehicle_id (snd (detect_vehicles dets ?s2))"
    by (rule Cons.IH)
  finally show ?case by (simp only: x detect_cons snd_conv)
qed

lemma detect_live_superset:
  "live_ids s \<subseteq> live_ids (snd (detect_vehicles dets s))"
proof (induction dets arbitrary: s)
  case Nil
  show ?case by simp
next
  case (Cons x dets)
  obtain det now where x: "x = (det, now)" by (cases x)
  let ?s2 = "(snd (assign_tracking_id det now s))
       \<lparr>total_detections := total_detections (snd (assign_tracking_id det now s)) + 1\<rparr>"
  have "live_ids s \<subseteq> live_ids ?s2"
    by (auto simp: assign_live_ids)
  also have "\<dots> \<subseteq> live_ids (snd (detect_vehicles dets ?s2))"
    by (rule Cons.IH)
  finally show ?case by (simp only: x detect_cons snd_conv)
qed

lemma detect_dead:
  assumes "tracker_inv s" "i < next_vehicle_id s" "i \<notin> live_ids s"
  shows "i \<notin> live_ids (snd (detect_vehicles dets s))
       \<and> Some i \<notin> snd ` set (fst (detect_vehicles dets s))"
  using assms
proof (induction dets arbitrary: s)
  case Nil
  then show ?case by simp
next
  case (Cons x dets)
  obtain det now where x: "x = (det, now)" by (cases x)
  let ?s2 = "(snd (assign_tracking_id det now s))
       \<lparr>total_detections := total_detections (snd (assign_tracking_id det now s)) + 1\<rparr>"
  from assign_dead [OF Cons.prems, of det now]
  have a: "i \<notin> live_ids ?s2" "i < next_vehicle_id ?s2" "fst (assign_tracking_id det now s) \<noteq> i"
    by simp_all
  have "tracker_inv ?s2" by (simp add: assign_inv Cons.prems)
  from Cons.IH [OF this a(2) a(1)] a(3) show ?case
    unfolding x detect_cons by simp
qed

lemma step_inv: "tracker_inv s \<Longrightarrow> tracker_inv (step s op)"
  by (cases op) (simp_all add: detect_inv cleanup_tracks_inv)

lemma step_next_mono: "next_vehicle_id s \<le> next_vehicle_id (step s op)"
  by (cases op) (simp_all add: detect_next_mono cleanup_tracks_fields)

lemma step_dead:
  assumes "tracker_inv s" "i < next_vehicle_id s" "i \<notin> live_ids s"
  shows "i \<notin> live_ids (step s op)"
proof (cases op)
  case (Detect dets)
  then show ?thesis using detect_dead [OF assms] by simp
next
  case (Cleanup t)
  then show ?thesis using assms(3) cleanup_tracks_live_subset [of t s] by auto
qed

lemma run_inv: "tracker_inv s \<Longrightarrow> tracker_inv (run ops s)"
  unfolding run_def by (induction ops arbitrary: s) (simp_all add: step_inv)

lemma run_next_mono: "next_vehicle_id s \<le> next_vehicle_id (run ops s)"
  unfolding run_def
proof (induction ops arbitrary: s)
  case Nil
  show ?case by simp
next
  case (Cons op ops)
  have "next_vehicle_id s \<le> next_vehicle_id (step s op)" by (rule step_next_mono)
  also have "\<dots> \<le> next_vehicle_id (foldl step (step s op) ops)" by (rule Cons.IH)
  finally show ?case by simp
qed

lemma run_dead:
  assumes "tracker_inv s" "i < next_vehicle_id s" "i \<notin> live_ids s"
  shows "i \<notin> live_ids (run ops s)"
  using assms unfolding run_def
proof (induction ops arbitrary: s)
  case Nil
  then show ?case by simp
next
  case (Cons op ops)
  have "i < next_vehicle_id (step s op)"
    using Cons.prems(2) step_next_mono [of s op] by simp
  with Cons.IH [OF step_inv [OF Cons.prems(1)] _ step_dead [OF Cons.prems]]
  show ?case by simp
qed

lemma init_inv: "tracker_inv init_detector"
  by (simp add: tracker_inv_def init_detector_def live_ids_def)


lemma returned_ids_cons: "returned_ids ((det, Some i) # out) = i # returned_ids out"
  by (simp add: returned_ids_def List.map_filter_simps)

lemma assign_history:
  assumes "live_ids s \<subseteq> H" "\<forall>h \<in> H. h < next_vehicle_id s"
    "H = {} \<and> next_vehicle_id s = 0 \<or> next_vehicle_id s - 1 \<in> H"
  shows "live_ids (snd (assign_tracking_id det now s)) \<subseteq> insert (fst (assign_tracking_id det now s)) H
    \<and> (\<forall>h \<in> insert (fst (assign_tracking_id det now s)) H.
          h < next_vehicle_id (snd (assign_tracking_id det now s)))
    \<and> next_vehicle_id (snd (assign_tracking_id det now s)) - 1
         \<in> insert (fst (assign_tracking_id det now s)) H"
  using assms assign_id_cases [of det now s]
  by (auto simp: assign_live_ids)

lemma detect_history:
  assumes "live_ids s \<subseteq> H" "\<forall>h \<in> H. h < next_vehicle_id s"
    "H = {} \<and> next_vehicle_id s = 0 \<or> next_vehicle_id s - 1 \<in> H"
  shows "live_ids (snd (detect_vehicles dets s))
           \<subseteq> H \<union> set (returned_ids (fst (detect_vehicles dets s)))
    \<and> (\<forall>h \<in> H \<union> set (returned_ids (fst (detect_vehicles dets s))).
          h < next_vehicle_id (snd (detect_vehicles dets s)))
    \<and> (H \<union> set (returned_ids (fst (detect_vehicles dets s))) = {}
          \<and> next_vehicle_id (snd (detect_vehicles dets s)) = 0
        \<or> next_vehicle_id (snd (detect_vehicles dets s)) - 1
            \<in> H \<union> set (returned_ids (fst (detect_vehicles dets s))))"
  using assms
proof (induction dets arbitrary: s H)
  case Nil
  then show ?case by (simp add: returned_ids_def List.map_filter_simps)
next
  case (Cons x dets)
  obtain det now where x: "x = (det, now)" by (cases x)
  let ?i = "fst (assign_tracking_id det now s)"
  let ?s2 = "(snd (assign_tracking_id det now s))
       \<lparr>total_detections := total_detections (snd (assign_tracking_id det now s)) + 1\<rparr>"
  from assign_history [OF Cons.prems, of det now]
  have a: "live_ids ?s2 \<subseteq> insert ?i H"
    "\<forall>h \<in> insert ?i H. h < next_vehicle_id ?s2"
    "insert ?i H = {} \<and> next_vehicle_id ?s2 = 0 \<or> next_vehicle_id ?s2 - 1 \<in> insert ?i H"
    by simp_all
  have e: "H \<union> set (returned_ids (fst (detect_vehicles (x # dets) s)))
         = insert ?i H \<union> set (returned_ids (fst (detect_vehicles dets ?s2)))"
    unfolding x detect_cons by (simp add: returned_ids_cons)
  have f: "snd (detect_vehicles (x # dets) s) = snd (detect_vehicles dets ?s2)"
    unfolding x detect_cons by simp
  from Cons.IH [OF a] show ?case unfolding e f .
qed

lemma run_history:
  assumes "live_ids s \<subseteq> H" "\<forall>h \<in> H. h < next_vehicle_id s"
    "H = {} \<and> next_vehicle_id s = 0 \<or> next_vehicle_id s - 1 \<in> H"
  shows "live_ids (run ops s) \<subseteq> H \<union> set (issued ops s)
    \<and> (\<forall>h \<in> H \<union> set (issued ops s). h < next_vehicle_id (run ops s))
    \<and> (H \<union> set (issued ops s) = {} \<and> next_vehicle_id (run ops s) = 0
        \<or> next_vehicle_id (run ops s) - 1 \<in> H \<union> set (issued ops s))"
  using assms
proof (induction ops arbitrary: s H)
  case Nil
  then show ?case by (simp add: run_def)
next
  case (Cons op ops)
  show ?case
  proof (cases op)
    case (Detect dets)
    let ?H = "H \<union> set (returned_ids (fst (detect_vehicles dets s)))"
    from detect_history [OF Cons.prems, of dets]
    have a: "live_ids (step s op) \<subseteq> ?H"
      "\<forall>h \<in> ?H. h < next_vehicle_id (step s op)"
      "?H = {} \<and> next_vehicle_id (step s op) = 0 \<or> next_vehicle_id (step s op) - 1 \<in> ?H"
      by (simp_all add: Detect)
    have e: "H \<union> set (issued (op # ops) s) = ?H \<union> set (issued ops (step s op))"
      by (auto simp: Detect)
    have f: "run (op # ops) s = run ops (step s op)" by (simp add: run_def)
    from Cons.IH [OF a] show ?thesis unfolding e f .
  next
    case (Cleanup t)
    have a: "live_ids (step s op) \<subseteq> H"
      "\<forall>h \<in> H. h < next_vehicle_id (step s op)"
      "H = {} \<and> next_vehicle_id (step s op) = 0 \<or> next_vehicle_id (step s op) - 1 \<in> H"
      using Cons.prems cleanup_tracks_live_subset [of t s]
      by (auto simp: Cleanup cleanup_tracks_fields)
    have e: "H \<union> set (issued (op # ops) s) = H \<union> set (issued ops (step s op))"
      by (simp add: Cleanup)
    have f: "run (op # ops) s = run ops (step s op)" by (simp add: run_def)
    from Cons.IH [OF a] show ?thesis unfolding e f .
  qed
qed

lemma counter_is_max_issued:
  assumes "issued ops init_detector \<noteq> []"
  shows "next_vehicle_id (run ops init_detector) = Max (set (issued ops init_detector)) + 1"
proof -
  let ?H = "set (issued ops init_detector)"
  let ?n = "next_vehicle_id (run ops init_detector)"
  from run_history [of init_detector "{}" ops]
  have b: "\<forall>h \<in> ?H. h < ?n" and c: "?H = {} \<and> ?n = 0 \<or> ?n - 1 \<in> ?H"
    by (simp_all add: init_detector_def live_ids_def)
  from assms c have m: "?n - 1 \<in> ?H" by simp
  have "Max ?H = ?n - 1"
  proof (rule Max_eqI)
    show "finite ?H" by simp
    show "?n - 1 \<in> ?H" by (rule m)
    fix y assume "y \<in> ?H"
    with b show "y \<le> ?n - 1" by auto
  qed
  then show ?thesis by simp
qed

lemma counter_zero_nothing_issued:
  "issued ops init_detector = [] \<Longrightarrow> next_vehicle_id (run ops init_detector) = 0"
  using run_history [of init_detector "{}" ops]
  by (simp add: init_detector_def live_ids_def)


lemma no_live_nothing_issued:
  "issued ops init_detector = [] \<Longrightarrow> tracked_vehicles (run ops init_detector) = []"
  using run_history [of init_detector "{}" ops]
  by (simp add: init_detector_def live_ids_def)

lemma assign_unmatched:
  assumes "\<forall>x \<in> set (tracked_vehicles s).
      \<not> distance (center det) (track_center (snd x)) < TRACKING_MAX_DISTANCE"
  shows "fst (assign_tracking_id det now s) = next_vehicle_id s"
proof -
  from assms find_closest_cases [of "center det" "tracked_vehicles s"]
  have "find_closest (center det) (tracked_vehicles s) = (None, None)"
    by force
  then show ?thesis by (simp add: assign_new)
qed

lemma fresh_id_after_run:
  assumes "\<forall>x \<in> set (tracked_vehicles (run ops init_detector)).
      \<not> distance (center det) (track_center (snd x)) < TRACKING_MAX_DISTANCE"
  shows "fst (assign_tracking_id det now (run ops init_detector))
       = (if issued ops init_detector = [] then 0
          else Max (set (issued ops init_detector)) + 1)"
  using assign_unmatched [OF assms, of now]
  by (simp add: counter_is_max_issued counter_zero_nothing_issued)

text \<open>
  Claim C4. On a detector whose live identities are distinct and below the counter, a
  detection is matched against every live track by the Euclidean distance between the
  centers. If some live track is strictly within \<open>TRACKING_MAX_DISTANCE\<close> (50 pixels),
  the detection gets the identity of a live track that is within the threshold and at
  least as near as every other live track, and that track is overwritten with the
  detection's center and bbox and the current time. If no live track is within the
  threshold, the detection gets the value of the counter, the counter is incremented and
  a new track is appended; after any run of frames and cleanups on a new detector that
  fresh identity is the largest identity handed out so far plus one (0 when none was).
  Starting without live tracks, a detection at (100, 100) followed by one at (105, 102)
  gets the same identity, and followed by one at (500, 500) a different one.
\<close>

theorem assign_tracking_id_nearest_or_fresh:
  assumes "tracker_inv s"
  shows
  "((\<exists>x \<in> set (tracked_vehicles s).
        distance (center det) (track_center (snd x)) < TRACKING_MAX_DISTANCE) \<longrightarrow>
      (\<exists>tr. map_of (tracked_vehicles s) (fst (assign_tracking_id det now s)) = Some tr
          \<and> distance (center det) (track_center tr) < TRACKING_MAX_DISTANCE
          \<and> (\<forall>x \<in> set (tracked_vehicles s).
                distance (center det) (track_center tr)
                  \<le> distance (center det) (track_center (snd x))))
      \<and> snd (assign_tracking_id det now s)
          = s\<lparr>tracked_vehicles :=
                AList.update (fst (assign_tracking_id det now s))
                  \<lparr>track_center = center det, track_bbox = bbox det,
                   frames_missing = 0, last_seen = now\<rparr>
                  (tracked_vehicles s)\<rparr>)
   \<and> ((\<forall>x \<in> set (tracked_vehicles s).
         \<not> distance (center det) (track_center (snd x)) < TRACKING_MAX_DISTANCE) \<longrightarrow>
        fst (assign_tracking_id det now s) = next_vehicle_id s
      \<and> snd (assign_tracking_id det now s)
          = s\<lparr>next_vehicle_id := next_vehicle_id s + 1,
              tracked_vehicles := tracked_vehicles s
                @ [(next_vehicle_id s,
                    \<lparr>track_center = center det, track_bbox = bbox det,
                     frames_missing = 0, last_seen = now\<rparr>)]\<rparr>)
   \<and> TRACKING_MAX_DISTANCE = 50
   \<and> (\<forall>s0 d1 d2 t1 t2.
         tracked_vehicles s0 = [] \<and> center d1 = (100, 100) \<and> center d2 = (105, 102) \<longrightarrow>
         fst (assign_tracking_id d2 t2 (snd (assign_tracking_id d1 t1 s0)))
           = fst (assign_tracking_id d1 t1 s0))
   \<and> (\<forall>s0 d1 d2 t1 t2.
         tracked_vehicles s0 = [] \<and> center d1 = (100, 100) \<and> center d2 = (500, 500) \<longrightarrow>
         fst (assign_tracking_id d2 t2 (snd (assign_tracking_id d1 t1 s0)))
           \<noteq> fst (assign_tracking_id d1 t1 s0))
   \<and> (\<forall>ops d t.
         (\<forall>x \<in> set (tracked_vehicles (run ops init_detector)).
            \<not> distance (center d) (track_center (snd x)) < TRACKING_MAX_DISTANCE) \<longrightarrow>
         fst (assign_tracking_id d t (run ops init_detector))
           = (if issued ops init_detector = [] then 0
              else Max (set (issued ops init_detector)) + 1))"
proof (intro conjI impI allI)
  let ?ts = "tracked_vehicles s"
  let ?c = "center det"
  assume ex: "\<exists>x \<in> set ?ts. distance ?c (track_center (snd x)) < TRACKING_MAX_DISTANCE"
  with find_closest_cases [of ?c ?ts]
  obtain i tr where fc: "find_closest ?c ?ts = (Some (distance ?c (track_center tr)), Some i)"
    and mem: "(i, tr) \<in> set ?ts"
    and near: "distance ?c (track_center tr) < TRACKING_MAX_DISTANCE"
    and least: "\<forall>x \<in> set ?ts. distance ?c (track_center tr) \<le> distance ?c (track_center (snd x))"
    by blast
  from fc have a: "assign_tracking_id det now s
       = (i, s\<lparr>tracked_vehicles := AList.update i (track_of det now) ?ts\<rparr>)"
    by (simp add: assign_matched)
  from assms mem have "map_of ?ts i = Some tr"
    by (simp add: tracker_inv_def)
  with near least a
  show "\<exists>tr. map_of ?ts (fst (assign_tracking_id det now s)) = Some tr
          \<and> distance ?c (track_center tr) < TRACKING_MAX_DISTANCE
          \<and> (\<forall>x \<in> set ?ts. distance ?c (track_center tr) \<le> distance ?c (track_center (snd x)))"
    by simp
  from a show "snd (assign_tracking_id det now s)
          = s\<lparr>tracked_vehicles :=
                AList.update (fst (assign_tracking_id det now s))
                  \<lparr>track_center = center det, track_bbox = bbox det,
                   frames_missing = 0, last_seen = now\<rparr> ?ts\<rparr>"
    by (simp add: track_of_def)
next
  let ?ts = "tracked_vehicles s"
  let ?c = "center det"
  assume no: "\<forall>x \<in> set ?ts. \<not> distance ?c (track_center (snd x)) < TRACKING_MAX_DISTANCE"
  with find_closest_cases [of ?c ?ts] have "find_closest ?c ?ts = (None, None)"
    by force
  then have a: "assign_tracking_id det now s
       = (next_vehicle_id s,
          s\<lparr>next_vehicle_id := next_vehicle_id s + 1,
            tracked_vehicles := AList.update (next_vehicle_id s) (track_of det now) ?ts\<rparr>)"
    by (simp add: assign_new)
  then show "fst (assign_tracking_id det now s) = next_vehicle_id s" by simp
  from assms have "next_vehicle_id s \<notin> fst ` set ?ts"
    by (auto simp: tracker_inv_def live_ids_def)
  then have "AList.update (next_vehicle_id s) (track_of det now) ?ts
      = ?ts @ [(next_vehicle_id s, track_of det now)]"
    by (rule update_absent)
  with a show "snd (assign_tracking_id det now s)
          = s\<lparr>next_vehicle_id := next_vehicle_id s + 1,
              tracked_vehicles := ?ts
                @ [(next_vehicle_id s,
                    \<lparr>track_center = center det, track_bbox = bbox det,
                     frames_missing = 0, last_seen = now\<rparr>)]\<rparr>"
    by (simp add: track_of_def)
next
  show "TRACKING_MAX_DISTANCE = 50" by (simp add: TRACKING_MAX_DISTANCE_def)
next
  fix s0 :: detector and d1 d2 :: detection and t1 t2 :: real
  assume "tracked_vehicles s0 = [] \<and> center d1 = (100, 100) \<and> center d2 = (105, 102)"
  then show "fst (assign_tracking_id d2 t2 (snd (assign_tracking_id d1 t1 s0)))
           = fst (assign_tracking_id d1 t1 s0)"
    by (simp add: assign_tracking_id_def find_closest_def distance_less_threshold
        below_def track_of_def Let_def)
next
  fix s0 :: detector and d1 d2 :: detection and t1 t2 :: real
  assume h: "tracked_vehicles s0 = [] \<and> center d1 = (100, 100) \<and> center d2 = (500, 500)"
  then show "fst (assign_tracking_id d2 t2 (snd (assign_tracking_id d1 t1 s0)))
           \<noteq> fst (assign_tracking_id d1 t1 s0)"
    by (simp add: assign_tracking_id_def find_closest_def distance_less_threshold
        below_def track_of_def Let_def)
next
  fix ops :: "tracker_op list" and d :: detection and t :: real
  assume "\<forall>x \<in> set (tracked_vehicles (run ops init_detector)).
            \<not> distance (center d) (track_center (snd x)) < TRACKING_MAX_DISTANCE"
  then show "fst (assign_tracking_id d t (run ops init_detector))
           = (if issued ops init_detector = [] then 0
              else Max (set (issued ops init_detector)) + 1)"
    by (rule fresh_id_after_run)
qed


theorem assign_tracking_id_nearest_or_fresh_witness:
  "tracker_inv \<lparr>tracked_vehicles =
       [(0, \<lparr>track_center = (300, 300), track_bbox = [280, 280, 320, 320],
             frames_missing = 0, last_seen = 1\<rparr>),
        (1, \<lparr>track_center = (100, 100), track_bbox = [80, 80, 120, 120],
             frames_missing = 0, last_seen = 1\<rparr>)],
      next_vehicle_id = 2, total_detections = 2\<rparr>
   \<and> fst (assign_tracking_id
        \<lparr>bbox = [85, 82, 125, 122], class_name = ''car'', confidence = 1 / 2, class_id = 2,
         center = (105, 102)\<rparr> 2
        \<lparr>tracked_vehicles =
       [(0, \<lparr>track_center = (300, 300), track_bbox = [280, 280, 320, 320],
             frames_missing = 0, last_seen = 1\<rparr>),
        (1, \<lparr>track_center = (100, 100), track_bbox = [80, 80, 120, 120],
             frames_missing = 0, last_seen = 1\<rparr>)],
      next_vehicle_id = 2, total_detections = 2\<rparr>) = 1
   \<and> fst (assign_tracking_id
        \<lparr>bbox = [480, 480, 520, 520], class_name = ''bus'', confidence = 1 / 2, class_id = 5,
         center = (500, 500)\<rparr> 2
        \<lparr>tracked_vehicles =
       [(0, \<lparr>track_center = (300, 300), track_bbox = [280, 280, 320, 320],
             frames_missing = 0, last_seen = 1\<rparr>),
        (1, \<lparr>track_center = (100, 100), track_bbox = [80, 80, 120, 120],
             frames_missing = 0, last_seen = 1\<rparr>)],
      next_vehicle_id = 2, total_detections = 2\<rparr>) = 2"
  using assign_tracking_id_nearest_or_fresh
    [of "\<lparr>tracked_vehicles =
       [(0, \<lparr>track_center = (300, 300), track_bbox = [280, 280, 320, 320],
             frames_missing = 0, last_seen = 1\<rparr>),
        (1, \<lparr>track_center = (100, 100), track_bbox = [80, 80, 120, 120],
             frames_missing = 0, last_seen = 1\<rparr>)],
      next_vehicle_id = 2, total_detections = 2\<rparr>"
      "\<lparr>bbox = [85, 82, 125, 122], class_name = ''car'', confidence = 1 / 2, class_id = 2,
         center = (105, 102)\<rparr>" 2]
    assign_tracking_id_nearest_or_fresh
    [of "\<lparr>tracked_vehicles =
       [(0, \<lparr>track_center = (300, 300), track_bbox = [280, 280, 320, 320],
             frames_missing = 0, last_seen = 1\<rparr>),
        (1, \<lparr>track_center = (100, 100), track_bbox = [80, 80, 120, 120],
             frames_missing = 0, last_seen = 1\<rparr>)],
      next_vehicle_id = 2, total_detections = 2\<rparr>"
      "\<lparr>bbox = [480, 480, 520, 520], class_name = ''bus'', confidence = 1 / 2, class_id = 5,
         center = (500, 500)\<rparr>" 2]
  by (simp add: tracker_inv_def live_ids_def assign_tracking_id_def find_closest_def
      distance_less_threshold distance_less_distance below_def track_of_def Let_def)

text \<open>
  Claim C5. \<open>cleanup_tracks\<close> keeps, unchanged and in order, exactly the tracks whose
  time since \<open>last_seen\<close> does not exceed the eviction window
  \<open>TRACKING_MAX_FRAMES_MISSING / 30\<close> (a third of a second) and removes the others; it
  leaves the counters alone. A track last seen longer ago than the window is not among
  the live tracks afterwards. Cleanup is the only operation that removes tracks:
  assigning an identity and processing a frame keep every live identity.
\<close>

theorem cleanup_tracks_evicts_exactly_stale:
  assumes "distinct (map fst (tracked_vehicles s))"
  shows "tracked_vehicles (cleanup_tracks now s)
           = filter (\<lambda>x. \<not> now - last_seen (snd x) > TRACKING_MAX_FRAMES_MISSING / 30)
               (tracked_vehicles s)
   \<and> TRACKING_MAX_FRAMES_MISSING / 30 = 1 / 3
   \<and> next_vehicle_id (cleanup_tracks now s) = next_vehicle_id s
   \<and> total_detections (cleanup_tracks now s) = total_detections s
   \<and> (\<forall>i tr. map_of (tracked_vehicles s) i = Some tr
          \<and> now - last_seen tr > TRACKING_MAX_FRAMES_MISSING / 30
        \<longrightarrow> i \<notin> live_ids (cleanup_tracks now s))
   \<and> (\<forall>i tr. map_of (tracked_vehicles s) i = Some tr
          \<and> \<not> now - last_seen tr > TRACKING_MAX_FRAMES_MISSING / 30
        \<longrightarrow> map_of (tracked_vehicles (cleanup_tracks now s)) i = Some tr)
   \<and> live_ids s \<subseteq> live_ids (snd (assign_tracking_id det t s))
   \<and> live_ids s \<subseteq> live_ids (snd (detect_vehicles dets s))"
proof (intro conjI allI impI)
  let ?al = "tracked_vehicles s"
  have f: "tracked_vehicles (cleanup_tracks now s) = filter (\<lambda>x. \<not> stale now x) ?al"
    using assms by (rule cleanup_tracks_filter)
  then show "tracked_vehicles (cleanup_tracks now s)
           = filter (\<lambda>x. \<not> now - last_seen (snd x) > TRACKING_MAX_FRAMES_MISSING / 30) ?al"
    by (simp add: stale_def)
  show "TRACKING_MAX_FRAMES_MISSING / 30 = 1 / 3"
    by (simp add: TRACKING_MAX_FRAMES_MISSING_def)
  show "next_vehicle_id (cleanup_tracks now s) = next_vehicle_id s"
    and "total_detections (cleanup_tracks now s) = total_detections s"
    by (simp_all add: cleanup_tracks_fields)
  show "live_ids s \<subseteq> live_ids (snd (assign_tracking_id det t s))"
    by (auto simp: assign_live_ids)
  show "live_ids s \<subseteq> live_ids (snd (detect_vehicles dets s))"
    by (rule detect_live_superset)
  {
    fix i tr
    assume h: "map_of ?al i = Some tr \<and> now - last_seen tr > TRACKING_MAX_FRAMES_MISSING / 30"
    show "i \<notin> live_ids (cleanup_tracks now s)"
    proof
      assume "i \<in> live_ids (cleanup_tracks now s)"
      then obtain tr' where m: "(i, tr') \<in> set ?al" and ns: "\<not> stale now (i, tr')"
        by (auto simp: live_ids_def f)
      from assms m have "map_of ?al i = Some tr'" by simp
      with h have "tr' = tr" by simp
      with h ns show False by (simp add: stale_def)
    qed
  }
  {
    fix i tr
    assume h: "map_of ?al i = Some tr \<and> \<not> now - last_seen tr > TRACKING_MAX_FRAMES_MISSING / 30"
    then have "(i, tr) \<in> set ?al" by (simp add: map_of_SomeD)
    with h have "(i, tr) \<in> set (filter (\<lambda>x. \<not> stale now x) ?al)"
      by (simp add: stale_def)
    moreover have "distinct (map fst (filter (\<lambda>x. \<not> stale now x) ?al))"
      using assms by (rule distinct_map_filter)
    ultimately show "map_of (tracked_vehicles (cleanup_tracks now s)) i = Some tr"
      unfolding f by (rule map_of_is_SomeI [rotated])
  }
qed


theorem cleanup_tracks_evicts_exactly_stale_witness:
  "distinct (map fst (tracked_vehicles
      \<lparr>tracked_vehicles =
         [(0, \<lparr>track_center = (300, 300), track_bbox = [280, 280, 320, 320],
               frames_missing = 0, last_seen = 1\<rparr>),
          (1, \<lparr>track_center = (100, 100), track_bbox = [80, 80, 120, 120],
               frames_missing = 0, last_seen = 2\<rparr>)],
       next_vehicle_id = 2, total_detections = 2\<rparr>))
   \<and> tracked_vehicles (cleanup_tracks (9 / 4)
      \<lparr>tracked_vehicles =
         [(0, \<lparr>track_center = (300, 300), track_bbox = [280, 280, 320, 320],
               frames_missing = 0, last_seen = 1\<rparr>),
          (1, \<lparr>track_center = (100, 100), track_bbox = [80, 80, 120, 120],
               frames_missing = 0, last_seen = 2\<rparr>)],
       next_vehicle_id = 2, total_detections = 2\<rparr>)
     = [(1, \<lparr>track_center = (100, 100), track_bbox = [80, 80, 120, 120],
               frames_missing = 0, last_seen = 2\<rparr>)]"
  using cleanup_tracks_evicts_exactly_stale
    [of "\<lparr>tracked_vehicles =
         [(0, \<lparr>track_center = (300, 300), track_bbox = [280, 280, 320, 320],
               frames_missing = 0, last_seen = 1\<rparr>),
          (1, \<lparr>track_center = (100, 100), track_bbox = [80, 80, 120, 120],
               frames_missing = 0, last_seen = 2\<rparr>)],
       next_vehicle_id = 2, total_detections = 2\<rparr>" "9 / 4"]
  by (simp add: TRACKING_MAX_FRAMES_MISSING_def)

text \<open>
  Claim C6. The invariant \<open>tracker_inv\<close> (live identities are distinct and strictly below
  \<open>next_vehicle_id\<close>) holds for a new detector and is preserved by identity assignment,
  by processing a frame, by cleanup and by any run of these operations; the counter
  never decreases, and every identity returned is below the counter afterwards. An
  identity evicted by a cleanup is never live again after any further run of
  operations, and no later assignment returns it.
\<close>

theorem track_ids_monotone_never_reused:
  "tracker_inv init_detector
   \<and> (tracker_inv s \<longrightarrow>
        tracker_inv (snd (assign_tracking_id det now s))
      \<and> next_vehicle_id s \<le> next_vehicle_id (snd (assign_tracking_id det now s))
      \<and> fst (assign_tracking_id det now s) < next_vehicle_id (snd (assign_tracking_id det now s))
      \<and> tracker_inv (snd (detect_vehicles dets s))
      \<and> next_vehicle_id s \<le> next_vehicle_id (snd (detect_vehicles dets s))
      \<and> tracker_inv (cleanup_tracks t s)
      \<and> next_vehicle_id (cleanup_tracks t s) = next_vehicle_id s
      \<and> tracker_inv (run ops s)
      \<and> next_vehicle_id s \<le> next_vehicle_id (run ops s))
   \<and> (tracker_inv s \<and> i \<in> live_ids s \<and> i \<notin> live_ids (cleanup_tracks t s) \<longrightarrow>
        i \<notin> live_ids (run ops (cleanup_tracks t s))
      \<and> fst (assign_tracking_id det now (run ops (cleanup_tracks t s))) \<noteq> i)"
proof (intro conjI impI)
  show "tracker_inv init_detector" by (rule init_inv)
next
  assume inv: "tracker_inv s"
  show "tracker_inv (snd (assign_tracking_id det now s))" using inv by (rule assign_inv)
  show "next_vehicle_id s \<le> next_vehicle_id (snd (assign_tracking_id det now s))"
    by (rule assign_next_mono)
  show "fst (assign_tracking_id det now s) < next_vehicle_id (snd (assign_tracking_id det now s))"
    using inv assign_id_cases [of det now s] by (auto simp: tracker_inv_def)
  show "tracker_inv (snd (detect_vehicles dets s))" using inv by (rule detect_inv)
  show "next_vehicle_id s \<le> next_vehicle_id (snd (detect_vehicles dets s))"
    by (rule detect_next_mono)
  show "tracker_inv (cleanup_tracks t s)" using inv by (rule cleanup_tracks_inv)
  show "next_vehicle_id (cleanup_tracks t s) = next_vehicle_id s"
    by (simp add: cleanup_tracks_fields)
  show "tracker_inv (run ops s)" using inv by (rule run_inv)
  show "next_vehicle_id s \<le> next_vehicle_id (run ops s)" by (rule run_next_mono)
next
  assume h: "tracker_inv s \<and> i \<in> live_ids s \<and> i \<notin> live_ids (cleanup_tracks t s)"
  let ?c = "cleanup_tracks t s"
  from h have inv: "tracker_inv ?c" by (simp add: cleanup_tracks_inv)
  from h have lt: "i < next_vehicle_id ?c"
    by (simp add: tracker_inv_def cleanup_tracks_fields)
  from h have dead: "i \<notin> live_ids ?c" by simp
  show "i \<notin> live_ids (run ops ?c)" using inv lt dead by (rule run_dead)
  have "i < next_vehicle_id (run ops ?c)"
    using lt run_next_mono [of ?c ops] by simp
  with assign_dead [OF run_inv [OF inv] _ run_dead [OF inv lt dead]]
  show "fst (assign_tracking_id det now (run ops ?c)) \<noteq> i" by simp
qed

theorem track_ids_monotone_never_reused_witness:
  "tracker_inv \<lparr>tracked_vehicles =
        [(0, \<lparr>track_center = (100, 100), track_bbox = [80, 80, 120, 120],
              frames_missing = 0, last_seen = 0\<rparr>)],
       next_vehicle_id = 1, total_detections = 1\<rparr>
   \<and> 0 \<in> live_ids \<lparr>tracked_vehicles =
        [(0, \<lparr>track_center = (100, 100), track_bbox = [80, 80, 120, 120],
              frames_missing = 0, last_seen = 0\<rparr>)],
       next_vehicle_id = 1, total_detections = 1\<rparr>
   \<and> 0 \<notin> live_ids (cleanup_tracks 1 \<lparr>tracked_vehicles =
        [(0, \<lparr>track_center = (100, 100), track_bbox = [80, 80, 120, 120],
              frames_missing = 0, last_seen = 0\<rparr>)],
       next_vehicle_id = 1, total_detections = 1\<rparr>)
   \<and> fst (assign_tracking_id
         \<lparr>bbox = [80, 80, 120, 120], class_name = ''car'', confidence = 1 / 2, class_id = 2,
          center = (100, 100)\<rparr> 3
         (run [Detect [(\<lparr>bbox = [80, 80, 120, 120], class_name = ''car'', confidence = 1 / 2,
                         class_id = 2, center = (100, 100)\<rparr>, 2)]]
            (cleanup_tracks 1 \<lparr>tracked_vehicles =
        [(0, \<lparr>track_center = (100, 100), track_bbox = [80, 80, 120, 120],
              frames_missing = 0, last_seen = 0\<rparr>)],
       next_vehicle_id = 1, total_detections = 1\<rparr>))) = 1"
  using track_ids_monotone_never_reused
    [where s = "\<lparr>tracked_vehicles =
        [(0, \<lparr>track_center = (100, 100), track_bbox = [80, 80, 120, 120],
              frames_missing = 0, last_seen = 0\<rparr>)],
       next_vehicle_id = 1, total_detections = 1\<rparr>"
      and i = 0 and t = 1 and now = 3
      and det = "\<lparr>bbox = [80, 80, 120, 120], class_name = ''car'', confidence = 1 / 2,
                 class_id = 2, center = (100, 100)\<rparr>"
      and ops = "[Detect [(\<lparr>bbox = [80, 80, 120, 120], class_name = ''car'',
                 confidence = 1 / 2, class_id = 2, center = (100, 100)\<rparr>, 2)]]"]
  by (simp add: tracker_inv_def live_ids_def cleanup_tracks_def stale_def
      TRACKING_MAX_FRAMES_MISSING_def run_def TRACKING_ENABLED_def assign_tracking_id_def
      find_closest_def distance_less_threshold below_def track_of_def Let_def)

text \<open>
  Claim C10. Identities assigned within one frame need not be distinct: the track created
  or updated for a detection is visible to the next detection of the same call, so two
  different detections with different centers, the second within the threshold of the
  first, both get identity 0 on a new detector, and the number of distinct identities of
  the frame is smaller than the number of detections.
\<close>

theorem same_frame_detections_share_identity:
  "\<exists>d1 d2 t1 t2. d1 \<noteq> d2
     \<and> center d1 \<noteq> center d2
     \<and> map snd (fst (detect_vehicles [(d1, t1), (d2, t2)] init_detector)) = [Some 0, Some 0]
     \<and> card (set (map snd (fst (detect_vehicles [(d1, t1), (d2, t2)] init_detector))))
         < length (fst (detect_vehicles [(d1, t1), (d2, t2)] init_detector))"
proof -
  let ?d1 = "\<lparr>bbox = [80, 80, 120, 120], class_name = ''car'', confidence = 1 / 2,
              class_id = 2, center = (100, 100)\<rparr>"
  let ?d2 = "\<lparr>bbox = [85, 82, 125, 122], class_name = ''car'', confidence = 1 / 2,
              class_id = 2, center = (105, 102)\<rparr>"
  have ids: "map snd (fst (detect_vehicles [(?d1, 0), (?d2, 0)] init_detector))
           = [Some 0, Some 0]"
    by (simp add: TRACKING_ENABLED_def init_detector_def assign_tracking_id_def
        find_closest_def distance_less_threshold below_def track_of_def Let_def)
  have len: "length (fst (detect_vehicles [(?d1, 0), (?d2, 0)] init_detector)) = 2"
    by (simp add: split_def Let_def)
  have "?d1 \<noteq> ?d2 \<and> center ?d1 \<noteq> center ?d2
     \<and> map snd (fst (detect_vehicles [(?d1, 0), (?d2, 0)] init_detector)) = [Some 0, Some 0]
     \<and> card (set (map snd (fst (detect_vehicles [(?d1, 0), (?d2, 0)] init_detector))))
         < length (fst (detect_vehicles [(?d1, 0), (?d2, 0)] init_detector))"
    by (simp only: ids len) simp
  then show ?thesis
    by - (rule exI [of _ "?d1"], rule exI [of _ "?d2"], rule exI [of _ 0], rule exI [of _ 0])
qed

section \<open>Properties of the signal recommendations\<close>

lemma subscript_low:
  "subscript SIGNAL_TIMINGS ''LOW'' = Inr \<lparr>green = 15, yellow = 3, min_green = 10\<rparr>"
  by (simp add: subscript_def SIGNAL_TIMINGS_def)

lemma dom_SIGNAL_TIMINGS: "dom SIGNAL_TIMINGS = DensityLevels"
  by (auto simp: SIGNAL_TIMINGS_def DensityLevels_def)

lemma dom_density_priority: "dom density_priority = DensityLevels"
  by (auto simp: density_priority_def DensityLevels_def)

lemma recommend_each_cons:
  "recommend_each ((direction, data) # rest) recs =
     recommend_each rest
       (recs(direction \<mapsto> Entry
          \<lparr>density_level = density data,
           vehicle_count = count data,
           green_duration =
             green (dict_get SIGNAL_TIMINGS (density data) \<lparr>green = 15, yellow = 3, min_green = 10\<rparr>),
           yellow_duration =
             yellow (dict_get SIGNAL_TIMINGS (density data) \<lparr>green = 15, yellow = 3, min_green = 10\<rparr>),
           total_duration =
             green (dict_get SIGNAL_TIMINGS (density data) \<lparr>green = 15, yellow = 3, min_green = 10\<rparr>)
             + yellow (dict_get SIGNAL_TIMINGS (density data) \<lparr>green = 15, yellow = 3, min_green = 10\<rparr>)\<rparr>))"
  by (simp add: subscript_low Let_def)

lemma recommend_each_total:
  "\<exists>m. recommend_each ta recs = Inr m
     \<and> dom m = dom recs \<union> fst ` set ta
     \<and> (\<forall>d. d \<notin> fst ` set ta \<longrightarrow> m d = recs d)
     \<and> (distinct (map fst ta) \<longrightarrow>
          (\<forall>x \<in> set ta. m (fst x) = Some (Entry
             \<lparr>density_level = density (snd x),
              vehicle_count = count (snd x),
              green_duration =
                green (dict_get SIGNAL_TIMINGS (density (snd x)) \<lparr>green = 15, yellow = 3, min_green = 10\<rparr>),
              yellow_duration =
                yellow (dict_get SIGNAL_TIMINGS (density (snd x)) \<lparr>green = 15, yellow = 3, min_green = 10\<rparr>),
              total_duration =
                green (dict_get SIGNAL_TIMINGS (density (snd x)) \<lparr>green = 15, yellow = 3, min_green = 10\<rparr>)
                + yellow (dict_get SIGNAL_TIMINGS (density (snd x)) \<lparr>green = 15, yellow = 3, min_green = 10\<rparr>)\<rparr>)))"
proof (induction ta arbitrary: recs)
  case Nil
  show ?case by simp
next
  case (Cons x ta)
  obtain d data where x: "x = (d, data)" by (cases x)
  let ?e = "Entry
          \<lparr>density_level = density data,
           vehicle_count = count data,
           green_duration =
             green (dict_get SIGNAL_TIMINGS (density data) \<lparr>green = 15, yellow = 3, min_green = 10\<rparr>),
           yellow_duration =
             yellow (dict_get SIGNAL_TIMINGS (density data) \<lparr>green = 15, yellow = 3, min_green = 10\<rparr>),
           total_duration =
             green (dict_get SIGNAL_TIMINGS (density data) \<lparr>green = 15, yellow = 3, min_green = 10\<rparr>)
             + yellow (dict_get SIGNAL_TIMINGS (density data) \<lparr>green = 15, yellow = 3, min_green = 10\<rparr>)\<rparr>"
  from Cons.IH [of "recs(d \<mapsto> ?e)"] obtain m where
    r: "recommend_each ta (recs(d \<mapsto> ?e)) = Inr m"
    and dm: "dom m = dom (recs(d \<mapsto> ?e)) \<union> fst ` set ta"
    and out: "\<forall>k. k \<notin> fst ` set ta \<longrightarrow> m k = (recs(d \<mapsto> ?e)) k"
    and ins: "distinct (map fst ta) \<longrightarrow>
          (\<forall>x \<in> set ta. m (fst x) = Some (Entry
             \<lparr>density_level = density (snd x),
              vehicle_count = count (snd x),
              green_duration =
                green (dict_get SIGNAL_TIMINGS (density (snd x)) \<lparr>green = 15, yellow = 3, min_green = 10\<rparr>),
              yellow_duration =
                yellow (dict_get SIGNAL_TIMINGS (density (snd x)) \<lparr>green = 15, yellow = 3, min_green = 10\<rparr>),
              total_duration =
                green (dict_get SIGNAL_TIMINGS (density (snd x)) \<lparr>green = 15, yellow = 3, min_green = 10\<rparr>)
                + yellow (dict_get SIGNAL_TIMINGS (density (snd x)) \<lparr>green = 15, yellow = 3, min_green = 10\<rparr>)\<rparr>))"
    by blast
  have 1: "recommend_each (x # ta) recs = Inr m"
    unfolding x recommend_each_cons by (rule r)
  have 2: "dom m = dom recs \<union> fst ` set (x # ta)"
    using dm by (auto simp: x)
  have 3: "\<forall>k. k \<notin> fst ` set (x # ta) \<longrightarrow> m k = recs k"
    using out by (auto simp: x)
  have 4: "distinct (map fst (x # ta)) \<longrightarrow>
          (\<forall>y \<in> set (x # ta). m (fst y) = Some (Entry
             \<lparr>density_level = density (snd y),
              vehicle_count = count (snd y),
              green_duration =
                green (dict_get SIGNAL_TIMINGS (density (snd y)) \<lparr>green = 15, yellow = 3, min_green = 10\<rparr>),
              yellow_duration =
                yellow (dict_get SIGNAL_TIMINGS (density (snd y)) \<lparr>green = 15, yellow = 3, min_green = 10\<rparr>),
              total_duration =
                green (dict_get SIGNAL_TIMINGS (density (snd y)) \<lparr>green = 15, yellow = 3, min_green = 10\<rparr>)
                + yellow (dict_get SIGNAL_TIMINGS (density (snd y)) \<lparr>green = 15, yellow = 3, min_green = 10\<rparr>)\<rparr>))"
  proof (intro impI ballI)
    fix y
    assume dist: "distinct (map fst (x # ta))" and y: "y \<in> set (x # ta)"
    from dist have dn: "d \<notin> fst ` set ta" and dt: "distinct (map fst ta)"
      by (simp_all add: x)
    from y consider "y = x" | "y \<in> set ta" by auto
    then show "m (fst y) = Some (Entry
             \<lparr>density_level = density (snd y),
              vehicle_count = count (snd y),
              green_duration =
                green (dict_get SIGNAL_TIMINGS (density (snd y)) \<lparr>green = 15, yellow = 3, min_green = 10\<rparr>),
              yellow_duration =
                yellow (dict_get SIGNAL_TIMINGS (density (snd y)) \<lparr>green = 15, yellow = 3, min_green = 10\<rparr>),
              total_duration =
                green (dict_get SIGNAL_TIMINGS (density (snd y)) \<lparr>green = 15, yellow = 3, min_green = 10\<rparr>)
                + yellow (dict_get SIGNAL_TIMINGS (density (snd y)) \<lparr>green = 15, yellow = 3, min_green = 10\<rparr>)\<rparr>)"
    proof cases
      case 1
      with out dn show ?thesis by (simp add: x)
    next
      case 2
      with ins dt show ?thesis by simp
    qed
  qed
  from 1 2 3 4 show ?case by blast
qed


lemma generate_total:
  assumes d: "distinct (map fst ta)" and o: "''optimal_sequence'' \<notin> fst ` set ta"
  shows "\<exists>recs. generate_signal_recommendations ta = Inr recs
     \<and> dom recs = fst ` set ta \<union> {''optimal_sequence''}
     \<and> recs ''optimal_sequence'' = Some (Sequence (calculate_optimal_sequence ta))
     \<and> (\<forall>x \<in> set ta. recs (fst x) = Some (Entry
             \<lparr>density_level = density (snd x),
              vehicle_count = count (snd x),
              green_duration =
                green (dict_get SIGNAL_TIMINGS (density (snd x)) \<lparr>green = 15, yellow = 3, min_green = 10\<rparr>),
              yellow_duration =
                yellow (dict_get SIGNAL_TIMINGS (density (snd x)) \<lparr>green = 15, yellow = 3, min_green = 10\<rparr>),
              total_duration =
                green (dict_get SIGNAL_TIMINGS (density (snd x)) \<lparr>green = 15, yellow = 3, min_green = 10\<rparr>)
                + yellow (dict_get SIGNAL_TIMINGS (density (snd x)) \<lparr>green = 15, yellow = 3, min_green = 10\<rparr>)\<rparr>))"
proof -
  from recommend_each_total [of ta Map.empty] d obtain m where
    r: "recommend_each ta Map.empty = Inr m"
    and dm: "dom m = fst ` set ta"
    and ins: "\<forall>x \<in> set ta. m (fst x) = Some (Entry
             \<lparr>density_level = density (snd x),
              vehicle_count = count (snd x),
              green_duration =
                green (dict_get SIGNAL_TIMINGS (density (snd x)) \<lparr>green = 15, yellow = 3, min_green = 10\<rparr>),
              yellow_duration =
                yellow (dict_get SIGNAL_TIMINGS (density (snd x)) \<lparr>green = 15, yellow = 3, min_green = 10\<rparr>),
              total_duration =
                green (dict_get SIGNAL_TIMINGS (density (snd x)) \<lparr>green = 15, yellow = 3, min_green = 10\<rparr>)
                + yellow (dict_get SIGNAL_TIMINGS (density (snd x)) \<lparr>green = 15, yellow = 3, min_green = 10\<rparr>)\<rparr>)"
    by auto
  let ?recs = "m(''optimal_sequence'' \<mapsto> Sequence (calculate_optimal_sequence ta))"
  have 1: "generate_signal_recommendations ta = Inr ?recs"
    by (simp add: generate_signal_recommendations_def r)
  have 2: "dom ?recs = fst ` set ta \<union> {''optimal_sequence''}"
    using dm by auto
  have 3: "?recs ''optimal_sequence'' = Some (Sequence (calculate_optimal_sequence ta))"
    by simp
  have ne: "fst x \<noteq> ''optimal_sequence''" if "x \<in> set ta" for x
    using that o by force
  have 4: "\<forall>x \<in> set ta. ?recs (fst x) = Some (Entry
             \<lparr>density_level = density (snd x),
              vehicle_count = count (snd x),
              green_duration =
                green (dict_get SIGNAL_TIMINGS (density (snd x)) \<lparr>green = 15, yellow = 3, min_green = 10\<rparr>),
              yellow_duration =
                yellow (dict_get SIGNAL_TIMINGS (density (snd x)) \<lparr>green = 15, yellow = 3, min_green = 10\<rparr>),
              total_duration =
                green (dict_get SIGNAL_TIMINGS (density (snd x)) \<lparr>green = 15, yellow = 3, min_green = 10\<rparr>)
                + yellow (dict_get SIGNAL_TIMINGS (density (snd x)) \<lparr>green = 15, yellow = 3, min_green = 10\<rparr>)\<rparr>)"
    using ins ne by simp
  from 1 2 3 4 show ?thesis by blast
qed

lemma dict_get_present: "m k = Some v \<Longrightarrow> dict_get m k dflt = v"
  by (simp add: dict_get_def)

lemma dict_get_absent: "k \<notin> dom m \<Longrightarrow> dict_get m k dflt = dflt"
  by (auto simp: dict_get_def split: option.splits)

text \<open>
  Claim C7. For every traffic analysis (any number of directions; the keys are distinct
  and none of them is the key \<open>optimal_sequence\<close>, which holds for direction names)
  \<open>_generate_signal_recommendations\<close> returns without error. The result has an entry
  for exactly the directions present, plus the key \<open>optimal_sequence\<close> with the
  planner's sequence. Each entry repeats the direction's density level and count, its
  green and yellow durations are those of \<open>SIGNAL_TIMINGS\<close> at that density level, and
  its total duration is their sum.
\<close>

theorem recommendations_for_directions_present:
  assumes "distinct (map fst ta)" and "''optimal_sequence'' \<notin> fst ` set ta"
  shows "\<exists>recs. generate_signal_recommendations ta = Inr recs
     \<and> dom recs = fst ` set ta \<union> {''optimal_sequence''}
     \<and> recs ''optimal_sequence'' = Some (Sequence (calculate_optimal_sequence ta))
     \<and> (\<forall>direction data. (direction, data) \<in> set ta \<longrightarrow>
          (\<exists>e. recs direction = Some (Entry e)
             \<and> density_level e = density data
             \<and> vehicle_count e = count data
             \<and> total_duration e = green_duration e + yellow_duration e
             \<and> (\<forall>t. SIGNAL_TIMINGS (density data) = Some t \<longrightarrow>
                   green_duration e = green t \<and> yellow_duration e = yellow t)))
     \<and> dom SIGNAL_TIMINGS = DensityLevels"
proof -
  from generate_total [OF assms] obtain recs where
    1: "generate_signal_recommendations ta = Inr recs"
    and 2: "dom recs = fst ` set ta \<union> {''optimal_sequence''}"
    and 3: "recs ''optimal_sequence'' = Some (Sequence (calculate_optimal_sequence ta))"
    and 4: "\<forall>x \<in> set ta. recs (fst x) = Some (Entry
             \<lparr>density_level = density (snd x),
              vehicle_count = count (snd x),
              green_duration =
                green (dict_get SIGNAL_TIMINGS (density (snd x)) \<lparr>green = 15, yellow = 3, min_green = 10\<rparr>),
              yellow_duration =
                yellow (dict_get SIGNAL_TIMINGS (density (snd x)) \<lparr>green = 15, yellow = 3, min_green = 10\<rparr>),
              total_duration =
                green (dict_get SIGNAL_TIMINGS (density (snd x)) \<lparr>green = 15, yellow = 3, min_green = 10\<rparr>)
                + yellow (dict_get SIGNAL_TIMINGS (density (snd x)) \<lparr>green = 15, yellow = 3, min_green = 10\<rparr>)\<rparr>)"
    by blast
  have 5: "\<forall>direction data. (direction, data) \<in> set ta \<longrightarrow>
          (\<exists>e. recs direction = Some (Entry e)
             \<and> density_level e = density data
             \<and> vehicle_count e = count data
             \<and> total_duration e = green_duration e + yellow_duration e
             \<and> (\<forall>t. SIGNAL_TIMINGS (density data) = Some t \<longrightarrow>
                   green_duration e = green t \<and> yellow_duration e = yellow t))"
  proof (intro allI impI)
    fix direction data
    assume "(direction, data) \<in> set ta"
    with 4 have "recs direction = Some (Entry
             \<lparr>density_level = density data,
              vehicle_count = count data,
              green_duration =
                green (dict_get SIGNAL_TIMINGS (density data) \<lparr>green = 15, yellow = 3, min_green = 10\<rparr>),
              yellow_duration =
                yellow (dict_get SIGNAL_TIMINGS (density data) \<lparr>green = 15, yellow = 3, min_green = 10\<rparr>),
              total_duration =
                green (dict_get SIGNAL_TIMINGS (density data) \<lparr>green = 15, yellow = 3, min_green = 10\<rparr>)
                + yellow (dict_get SIGNAL_TIMINGS (density data) \<lparr>green = 15, yellow = 3, min_green = 10\<rparr>)\<rparr>)"
      by force
    then show "\<exists>e. recs direction = Some (Entry e)
             \<and> density_level e = density data
             \<and> vehicle_count e = count data
             \<and> total_duration e = green_duration e + yellow_duration e
             \<and> (\<forall>t. SIGNAL_TIMINGS (density data) = Some t \<longrightarrow>
                   green_duration e = green t \<and> yellow_duration e = yellow t)"
      by (simp add: dict_get_present)
  qed
  from 1 2 3 5 dom_SIGNAL_TIMINGS show ?thesis by blast
qed

theorem recommendations_for_directions_present_witness:
  "distinct (map fst [(''NORTH'', \<lparr>count = 20, density = ''HIGH''\<rparr>),
                      (''WEST'', \<lparr>count = 2, density = ''LOW''\<rparr>)])
   \<and> ''optimal_sequence'' \<notin> fst ` set [(''NORTH'', \<lparr>count = 20, density = ''HIGH''\<rparr>),
                      (''WEST'', \<lparr>count = 2, density = ''LOW''\<rparr>)]
   \<and> generate_signal_recommendations [(''NORTH'', \<lparr>count = 20, density = ''HIGH''\<rparr>),
                      (''WEST'', \<lparr>count = 2, density = ''LOW''\<rparr>)]
     = Inr [''NORTH'' \<mapsto> Entry \<lparr>density_level = ''HIGH'', vehicle_count = 20,
               green_duration = 45, yellow_duration = 3, total_duration = 48\<rparr>,
            ''WEST'' \<mapsto> Entry \<lparr>density_level = ''LOW'', vehicle_count = 2,
               green_duration = 15, yellow_duration = 3, total_duration = 18\<rparr>,
            ''optimal_sequence'' \<mapsto> Sequence [''NORTH'', ''WEST'']]"
  using recommendations_for_directions_present
    [of "[(''NORTH'', \<lparr>count = 20, density = ''HIGH''\<rparr>),
          (''WEST'', \<lparr>count = 2, density = ''LOW''\<rparr>)]"]
  by (simp add: generate_signal_recommendations_def subscript_def SIGNAL_TIMINGS_def
      dict_get_def Let_def calculate_optimal_sequence_def sorted_reverse_def sort_key_of_def
      density_priority_def)

text \<open>
  Claim C8, as stated: a density value that is not one of the four level names is rejected
  as an error. The value \<open>JAMMED\<close> is not a level name; the source does not reject it
  but returns a recommendation with the LOW timings (green 15, yellow 3, total 18), and
  the planner gives it priority 0.
\<close>

theorem unexpected_density_gets_low_timing:
  "''JAMMED'' \<notin> DensityLevels
   \<and> generate_signal_recommendations [(''NORTH'', \<lparr>count = 3, density = ''JAMMED''\<rparr>)]
     = Inr [''NORTH'' \<mapsto> Entry \<lparr>density_level = ''JAMMED'', vehicle_count = 3,
               green_duration = 15, yellow_duration = 3, total_duration = 18\<rparr>,
            ''optimal_sequence'' \<mapsto> Sequence [''NORTH'']]
   \<and> sort_key_of (''NORTH'', \<lparr>count = 3, density = ''JAMMED''\<rparr>) = (0, 3)"
  by (simp add: DensityLevels_def generate_signal_recommendations_def subscript_def
      SIGNAL_TIMINGS_def dict_get_def Let_def calculate_optimal_sequence_def
      sorted_reverse_def sort_key_of_def density_priority_def)

text \<open>
  Claim C8, amended: the default of the lookup \<open>SIGNAL_TIMINGS.get(density, LOW)\<close>
  applies to every density value that is not a key of the table. For any input with a
  direction whose density value is not one of the four level names, no error is raised:
  that direction gets the LOW timings (green 15, yellow 3, total 18), the planner ranks
  it with priority 0, and it is part of the sequence.
\<close>

theorem unexpected_density_defaults:
  assumes "distinct (map fst ta)" and "''optimal_sequence'' \<notin> fst ` set ta"
    and "(direction, data) \<in> set ta" and "density data \<notin> DensityLevels"
  shows "\<exists>recs. generate_signal_recommendations ta = Inr recs
     \<and> recs direction = Some (Entry
          \<lparr>density_level = density data, vehicle_count = count data,
           green_duration = 15, yellow_duration = 3, total_duration = 18\<rparr>)
     \<and> dict_get density_priority (density data) 0 = 0
     \<and> direction \<in> set (calculate_optimal_sequence ta)"
proof -
  from generate_total [OF assms(1,2)] obtain recs where
    1: "generate_signal_recommendations ta = Inr recs"
    and 4: "\<forall>x \<in> set ta. recs (fst x) = Some (Entry
             \<lparr>density_level = density (snd x),
              vehicle_count = count (snd x),
              green_duration =
                green (dict_get SIGNAL_TIMINGS (density (snd x)) \<lparr>green = 15, yellow = 3, min_green = 10\<rparr>),
              yellow_duration =
                yellow (dict_get SIGNAL_TIMINGS (density (snd x)) \<lparr>green = 15, yellow = 3, min_green = 10\<rparr>),
              total_duration =
                green (dict_get SIGNAL_TIMINGS (density (snd x)) \<lparr>green = 15, yellow = 3, min_green = 10\<rparr>)
                + yellow (dict_get SIGNAL_TIMINGS (density (snd x)) \<lparr>green = 15, yellow = 3, min_green = 10\<rparr>)\<rparr>)"
    by blast
  have low: "dict_get SIGNAL_TIMINGS (density data) \<lparr>green = 15, yellow = 3, min_green = 10\<rparr>
      = \<lparr>green = 15, yellow = 3, min_green = 10\<rparr>"
    using assms(4) by (simp add: dict_get_absent dom_SIGNAL_TIMINGS)
  from 4 assms(3) have 2: "recs direction = Some (Entry
          \<lparr>density_level = density data, vehicle_count = count data,
           green_duration = 15, yellow_duration = 3, total_duration = 18\<rparr>)"
    by (force simp: low)
  have 3: "dict_get density_priority (density data) 0 = 0"
    using assms(4) by (simp add: dict_get_absent dom_density_priority)
  have "set (calculate_optimal_sequence ta) = set (map fst ta)"
    using mset_sequence [of ta] by (rule mset_eq_setD)
  with assms(3) have 5: "direction \<in> set (calculate_optimal_sequence ta)" by force
  from 1 2 3 5 show ?thesis by blast
qed

theorem unexpected_density_defaults_witness:
  "distinct (map fst [(''EAST'', \<lparr>count = 7, density = ''medium''\<rparr>)])
   \<and> ''optimal_sequence'' \<notin> fst ` set [(''EAST'', \<lparr>count = 7, density = ''medium''\<rparr>)]
   \<and> ''medium'' \<notin> DensityLevels
   \<and> generate_signal_recommendations [(''EAST'', \<lparr>count = 7, density = ''medium''\<rparr>)]
     = Inr [''EAST'' \<mapsto> Entry \<lparr>density_level = ''medium'', vehicle_count = 7,
               green_duration = 15, yellow_duration = 3, total_duration = 18\<rparr>,
            ''optimal_sequence'' \<mapsto> Sequence [''EAST'']]"
  using unexpected_density_defaults
    [of "[(''EAST'', \<lparr>count = 7, density = ''medium''\<rparr>)]" "''EAST''"
        "\<lparr>count = 7, density = ''medium''\<rparr>"]
  by (simp add: DensityLevels_def generate_signal_recommendations_def subscript_def
      SIGNAL_TIMINGS_def dict_get_def Let_def calculate_optimal_sequence_def
      sorted_reverse_def sort_key_of_def density_priority_def)

end
